theory Spec2Isabelle
  imports Complex_Main
begin

section \<open>JavaScript values\<close>

text \<open>
  The TypeScript type \<open>number\<close> is modelled by \<open>int\<close> for the fields that hold pixel
  counts, milliseconds, percentages, counts and HTTP status codes, and by \<open>rat\<close> for the
  device scale factor (the preset table holds 2.625): the number is the value written, and
  it is rounded to a double where it is printed. \<open>NaN\<close> and the infinities are not
  modelled as values of a field. An optional field is an \<open>option\<close>; \<open>None\<close> is
  \<open>undefined\<close>.
\<close>

text \<open>The decimal digits of a number that is not negative.\<close>

definition digit :: "int \<Rightarrow> char" where
  "digit n = ''0123456789'' ! nat n"

function decimal :: "int \<Rightarrow> string" where
  "decimal n = (if n < 10 then [digit n] else decimal (n div 10) @ [digit (n mod 10)])"
  by pat_completeness auto
termination
  by (relation "measure nat") auto

declare decimal.simps [simp del]

text \<open>
  \<open>pow b p\<close> is \<open>b\<close> to the power \<open>p\<close>, \<open>len b n\<close> the number of digits of \<open>n\<close> in
  base \<open>b\<close>, and \<open>floor_log b q\<close>, for a positive \<open>q\<close>, the exponent \<open>e\<close> with
  \<open>b ^ e \<le> q < b ^ (e + 1)\<close>.
\<close>

definition pow :: "int \<Rightarrow> int \<Rightarrow> rat" where
  "pow b p = (if 0 \<le> p then of_int b ^ nat p else 1 / of_int b ^ nat (- p))"

function len :: "int \<Rightarrow> int \<Rightarrow> int" where
  "len b n = (if n \<le> 0 \<or> b < 2 then 0 else 1 + len b (n div b))"
  by pat_completeness auto
termination
  by (relation "measure (\<lambda>(b, n). nat n)") (auto simp: int_div_less_self)

declare len.simps [simp del]

definition floor_log :: "int \<Rightarrow> rat \<Rightarrow> int" where
  "floor_log b q =
     (let (n, d) = quotient_of q;
          e = len b n - len b d
      in if pow b e \<le> q then e else e - 1)"

text \<open>
  The double nearest to a positive rational, ties to the even significand: 53 bits above
  \<open>2 ^ (-1074)\<close>, the step of the subnormal numbers.
\<close>

definition round_half_even :: "rat \<Rightarrow> int" where
  "round_half_even r =
     (let f = \<lfloor>r\<rfloor>; d = r - of_int f
      in if d < 1 / 2 then f else if 1 / 2 < d then f + 1 else if even f then f else f + 1)"

definition to_double :: "rat \<Rightarrow> rat" where
  "to_double q =
     (let p = max (floor_log 2 q - 52) (- 1074)
      in of_int (round_half_even (q / pow 2 p)) * pow 2 p)"

text \<open>
  \<open>Number::toString\<close> of ECMAScript on a positive double \<open>x\<close>: the least number
  \<open>k\<close> of digits for which some \<open>s\<close> of \<open>k\<close> digits and some \<open>n\<close> give
  \<open>s * 10 ^ (n - k)\<close>, a number that rounds to \<open>x\<close> (of two such \<open>s\<close> the nearer to
  \<open>x\<close>, then the even one); seventeen digits always suffice. The digits are then laid
  out by \<open>n\<close>: as an integer, with a decimal point, after \<open>0.\<close> and zeros, or with an
  exponent.
\<close>

fun shortest :: "nat \<Rightarrow> nat \<Rightarrow> rat \<Rightarrow> int \<Rightarrow> int \<times> int" where
  "shortest 0 k x n = (\<lfloor>x / pow 10 (n - int k)\<rfloor>, n)"
| "shortest (Suc fuel) k x n =
     (let unit = pow 10 (n - int k);
          lo = \<lfloor>x / unit\<rfloor>;
          below = of_int lo * unit;
          above = of_int (lo + 1) * unit;
          ok_below = (to_double below = x);
          ok_above = (to_double above = x)
      in if ok_below \<and> (\<not> ok_above \<or> x - below < above - x \<or> (x - below = above - x \<and> even lo))
         then (lo, n)
         else if ok_above
         then (if lo + 1 = 10 ^ k then (10 ^ (k - 1), n + 1) else (lo + 1, n))
         else shortest fuel (Suc k) x n)"

definition format_digits :: "int \<times> int \<Rightarrow> string" where
  "format_digits sn =
     (let digits = decimal (fst sn); k = int (length digits); n = snd sn
      in if k \<le> n \<and> n \<le> 21 then digits @ replicate (nat (n - k)) CHR ''0''
         else if 0 < n \<and> n \<le> 21 then take (nat n) digits @ ''.'' @ drop (nat n) digits
         else if - 6 < n \<and> n \<le> 0 then ''0.'' @ replicate (nat (- n)) CHR ''0'' @ digits
         else (let e = n - 1;
                   exponent = (if e < 0 then ''-'' else ''+'') @ decimal \<bar>e\<bar>
               in if k = 1 then digits @ ''e'' @ exponent
                  else take 1 digits @ ''.'' @ drop 1 digits @ ''e'' @ exponent))"

text \<open>
  An integer below \<open>2 ^ 53\<close> in magnitude is a double and prints as its decimal
  digits; any other number prints as the double nearest to it does.
\<close>

definition number_toString :: "rat \<Rightarrow> string" where
  "number_toString q =
     (if of_int \<lfloor>q\<rfloor> = q \<and> \<bar>q\<bar> < 2 ^ 53
      then (if q < 0 then ''-'' else []) @ decimal \<bar>\<lfloor>q\<rfloor>\<bar>
      else (let x = to_double \<bar>q\<bar>
            in if x = 0 then ''0''
               else (if q < 0 then ''-'' else [])
                    @ (if 2 ^ 1024 \<le> x then ''Infinity''
                       else format_digits (shortest 17 1 x (floor_log 10 x + 1)))))"

definition int_toString :: "int \<Rightarrow> string" where
  "int_toString i = number_toString (of_int i)"

text \<open>Truthiness of optional numbers, strings and booleans, as tested by \<open>if (x)\<close>.\<close>

definition truthy_int :: "int option \<Rightarrow> bool" where
  "truthy_int x = (case x of None \<Rightarrow> False | Some n \<Rightarrow> n \<noteq> 0)"

text \<open>
  A number is falsy when it is zero as a double: when its magnitude is at most half the
  least subnormal number.
\<close>

definition rounds_to_zero :: "rat \<Rightarrow> bool" where
  "rounds_to_zero q = (\<bar>q\<bar> \<le> 1 / 2 ^ 1075)"

definition truthy_number :: "rat option \<Rightarrow> bool" where
  "truthy_number x = (case x of None \<Rightarrow> False | Some n \<Rightarrow> \<not> rounds_to_zero n)"

definition truthy_string :: "string option \<Rightarrow> bool" where
  "truthy_string x = (case x of None \<Rightarrow> False | Some s \<Rightarrow> s \<noteq> [])"

definition truthy_bool :: "bool option \<Rightarrow> bool" where
  "truthy_bool x = (case x of None \<Rightarrow> False | Some b \<Rightarrow> b)"

section \<open>Data model (types module)\<close>

text \<open>
  \<open>DevicePresetConfig\<close>: width, height, mobile, scale. The selectors carry a prefix,
  since \<open>ScreenshotOptions\<close> has fields of the same names.
\<close>

datatype DevicePresetConfig =
  DevicePresetConfig (preset_width: int) (preset_height: int) (preset_mobile: bool) (preset_scale: rat)

record ScreenshotOptions =
  url :: string
  width :: "int option"
  height :: "int option"
  device :: "string option"
  fullPage :: "bool option"
  format :: "string option"
  quality :: "int option"
  scale :: "rat option"
  delay :: "int option"
  waitForSelector :: "string option"
  selector :: "string option"
  css :: "string option"
  js :: "string option"
  blockAds :: "bool option"
  hideCookieBanners :: "bool option"
  darkMode :: "bool option"
  mobile :: "bool option"
  thumbnailWidth :: "int option"

record ShotAPIConfig =
  apiKey :: string
  baseUrl :: "string option"
  timeout :: "int option"
  retries :: "int option"
  maxConcurrent :: "int option"

text \<open>
  Whatever a \<open>throw\<close> can carry: a \<open>ShotAPIException\<close> (message, code, details,
  statusCode), another \<open>Error\<close> (name and message: the \<open>SyntaxError\<close> of a failed JSON
  parse, the \<open>TypeError\<close> of a failed fetch or of a property read on \<open>undefined\<close> or
  \<open>null\<close>, the \<open>AbortError\<close> of an aborted fetch), or a value that is no \<open>Error\<close>,
  of which only the truthiness matters.
\<close>

datatype thrown =
    ShotAPIException string "string option" "string option" "int option"
  | Error string string
  | NonError bool

definition truthy_thrown :: "thrown \<Rightarrow> bool" where
  "truthy_thrown e = (case e of NonError b \<Rightarrow> b | _ \<Rightarrow> True)"

text \<open>
  A parsed JSON body: \<open>null\<close>, or a value read through the fields \<open>error\<close>, \<open>code\<close>
  and \<open>details\<close> of \<open>ShotAPIError\<close>; the last component stands for everything else
  in it (the screenshot response).
\<close>

datatype json = JNull | JValue "string option" "string option" "string option" string

text \<open>
  An HTTP response. \<open>body = Inl message\<close> is a body on which \<open>response.json()\<close> throws
  a \<open>SyntaxError\<close> with that message; \<open>body = Inr data\<close> is one it parses to \<open>data\<close>.
\<close>

record Response =
  status :: int
  statusText :: string
  body :: "string + json"

definition ok :: "Response \<Rightarrow> bool" where
  "ok r = (200 \<le> status r \<and> status r \<le> 299)"

datatype fetch_result = Resolved Response | Rejected thrown

section \<open>URLSearchParams\<close>

type_synonym URLSearchParams = "(string \<times> string) list"

text \<open>
  \<open>params.set(k, v)\<close>: the first pair named \<open>k\<close> gets the value and the other pairs
  named \<open>k\<close> go; with no such pair, the pair is appended.
\<close>

fun params_set :: "string \<Rightarrow> string \<Rightarrow> URLSearchParams \<Rightarrow> URLSearchParams" where
  "params_set k v [] = [(k, v)]"
| "params_set k v (p # ps) =
     (if fst p = k then (k, v) # filter (\<lambda>q. fst q \<noteq> k) ps else p # params_set k v ps)"

definition params_get :: "URLSearchParams \<Rightarrow> string \<Rightarrow> string option" where
  "params_get ps k = map_of ps k"

text \<open>The four shapes of \<open>if (x) params.set(k, ...)\<close> in \<open>buildParams\<close>.\<close>

definition set_flag :: "string \<Rightarrow> bool option \<Rightarrow> URLSearchParams \<Rightarrow> URLSearchParams" where
  "set_flag k x ps = (if truthy_bool x then params_set k ''true'' ps else ps)"

definition set_string :: "string \<Rightarrow> string option \<Rightarrow> URLSearchParams \<Rightarrow> URLSearchParams" where
  "set_string k x ps = (case x of None \<Rightarrow> ps | Some s \<Rightarrow> if s \<noteq> [] then params_set k s ps else ps)"

definition set_int :: "string \<Rightarrow> int option \<Rightarrow> URLSearchParams \<Rightarrow> URLSearchParams" where
  "set_int k x ps =
     (case x of None \<Rightarrow> ps | Some n \<Rightarrow> if n \<noteq> 0 then params_set k (int_toString n) ps else ps)"

definition set_number :: "string \<Rightarrow> rat option \<Rightarrow> URLSearchParams \<Rightarrow> URLSearchParams" where
  "set_number k x ps =
     (case x of
        None \<Rightarrow> ps
      | Some n \<Rightarrow> if \<not> rounds_to_zero n then params_set k (number_toString n) ps else ps)"

section \<open>Device presets\<close>

definition DEVICE_PRESETS :: "(string \<times> DevicePresetConfig) list" where
  "DEVICE_PRESETS =
    [(''desktop'', DevicePresetConfig 1920 1080 False 1),
     (''laptop'', DevicePresetConfig 1366 768 False 1),
     (''tablet'', DevicePresetConfig 768 1024 True 2),
     (''mobile'', DevicePresetConfig 375 812 True 3),
     (''iphone-14'', DevicePresetConfig 390 844 True 3),
     (''iphone-14-pro'', DevicePresetConfig 393 852 True 3),
     (''iphone-14-pro-max'', DevicePresetConfig 430 932 True 3),
     (''ipad'', DevicePresetConfig 810 1080 True 2),
     (''ipad-pro'', DevicePresetConfig 1024 1366 True 2),
     (''galaxy-s23'', DevicePresetConfig 360 780 True 3),
     (''pixel-7'', DevicePresetConfig 412 915 True (2625 / 1000))]"

text \<open>
  \<open>DEVICE_PRESETS\<close> is an object literal, so \<open>DEVICE_PRESETS[name]\<close> also finds the
  properties the object inherits from \<open>Object.prototype\<close>: a function or an object, truthy,
  with no \<open>width\<close>.
\<close>

definition Object_prototype :: "string list" where
  "Object_prototype =
    [''constructor'', ''__defineGetter__'', ''__defineSetter__'', ''hasOwnProperty'',
     ''__lookupGetter__'', ''__lookupSetter__'', ''isPrototypeOf'', ''propertyIsEnumerable'',
     ''toString'', ''valueOf'', ''__proto__'', ''toLocaleString'']"

datatype property = Own DevicePresetConfig | Inherited | Undefined

definition getDevicePreset :: "string \<Rightarrow> property" where
  "getDevicePreset name =
     (case map_of DEVICE_PRESETS name of
        Some preset \<Rightarrow> Own preset
      | None \<Rightarrow> if name \<in> set Object_prototype then Inherited else Undefined)"

section \<open>The client of \<open>src/index.ts\<close>\<close>

record ShotAPI =
  this_apiKey :: string
  this_baseUrl :: string
  this_timeout :: int
  this_retries :: int

text \<open>\<open>x || d\<close> on an optional string or number, and \<open>x ?? d\<close>.\<close>

definition or_string :: "string option \<Rightarrow> string \<Rightarrow> string" where
  "or_string x d = (case x of None \<Rightarrow> d | Some s \<Rightarrow> if s \<noteq> [] then s else d)"

definition or_int :: "int option \<Rightarrow> int \<Rightarrow> int" where
  "or_int x d = (case x of None \<Rightarrow> d | Some n \<Rightarrow> if n \<noteq> 0 then n else d)"

definition nullish :: "'a option \<Rightarrow> 'a \<Rightarrow> 'a" where
  "nullish x d = (case x of None \<Rightarrow> d | Some v \<Rightarrow> v)"

definition new_ShotAPI :: "ShotAPIConfig \<Rightarrow> thrown + ShotAPI" where
  "new_ShotAPI config =
     (if apiKey config = [] then Inl (ShotAPIException ''API key is required'' None None None)
      else Inr \<lparr>this_apiKey = apiKey config,
                this_baseUrl = or_string (baseUrl config) ''https://shotapi.dev'',
                this_timeout = or_int (timeout config) 30000,
                this_retries = nullish (retries config) 2\<rparr>)"

subsection \<open>buildParams\<close>

text \<open>
  The body of \<open>if (options.device) { ... }\<close>. On an inherited property
  \<open>preset.width\<close> is \<open>undefined\<close> and \<open>preset.width.toString()\<close> throws.
\<close>

definition preset_params :: "string \<Rightarrow> URLSearchParams \<Rightarrow> thrown + URLSearchParams" where
  "preset_params name params =
     (case getDevicePreset name of
        Undefined \<Rightarrow> Inr params
      | Inherited \<Rightarrow>
          Inl (Error ''TypeError'' ''Cannot read properties of undefined (reading 'toString')'')
      | Own preset \<Rightarrow>
          (let params = params_set ''width'' (int_toString (preset_width preset)) params;
               params = params_set ''height'' (int_toString (preset_height preset)) params;
               params = (if preset_mobile preset then params_set ''mobile'' ''true'' params
                         else params);
               params = (if preset_scale preset \<noteq> 1
                         then params_set ''scale'' (number_toString (preset_scale preset)) params
                         else params)
           in Inr params))"

definition explicit_params :: "ScreenshotOptions \<Rightarrow> URLSearchParams \<Rightarrow> URLSearchParams" where
  "explicit_params options params =
     (let params = set_int ''width'' (width options) params;
          params = set_int ''height'' (height options) params
      in params)"

definition viewport_params ::
  "ScreenshotOptions \<Rightarrow> URLSearchParams \<Rightarrow> thrown + URLSearchParams" where
  "viewport_params options params =
     (case device options of
        None \<Rightarrow> Inr (explicit_params options params)
      | Some name \<Rightarrow>
          if name \<noteq> [] then preset_params name params
          else Inr (explicit_params options params))"

definition buildParams :: "'a ShotAPI_scheme \<Rightarrow> ScreenshotOptions \<Rightarrow> thrown + URLSearchParams" where
  "buildParams this options =
     (let params = [];
          params = params_set ''url'' (url options) params;
          params = params_set ''api_key'' (this_apiKey this) params
      in case viewport_params options params of
           Inl e \<Rightarrow> Inl e
         | Inr params \<Rightarrow>
             (let params = set_flag ''full_page'' (fullPage options) params;
                  params = set_string ''format'' (format options) params;
                  params = set_int ''quality'' (quality options) params;
                  params = set_number ''scale'' (scale options) params;
                  params = set_int ''delay'' (delay options) params;
                  params = set_string ''wait_for'' (waitForSelector options) params;
                  params = set_flag ''dark_mode'' (darkMode options) params;
                  params = set_flag ''mobile'' (mobile options) params;
                  params = set_string ''selector'' (selector options) params;
                  params = set_string ''css'' (css options) params;
                  params = set_string ''js'' (js options) params;
                  params = set_flag ''block_ads'' (blockAds options) params;
                  params = set_flag ''hide_cookie_banners'' (hideCookieBanners options) params;
                  params = set_int ''thumbnail_width'' (thumbnailWidth options) params
              in Inr params))"

subsection \<open>request\<close>

text \<open>
  What a call does, in order: the fetches it issues (the request path and parameters;
  \<open>params.toString()\<close> is left to the platform) and the timers it awaits, then, for a
  batch, the \<open>screenshot\<close> calls it starts and the \<open>Promise.all\<close> it awaits.
\<close>

datatype event = Fetch string URLSearchParams | Sleep int | Screenshot string | AwaitAll

text \<open>
  What \<open>fetch\<close> does depends on the URL it is given and on when it is called: a server
  is a function from the request (path and parameters) and the number of the attempt to
  the outcome: \<open>fetch\<close> resolves with a response, or rejects (with an \<open>AbortError\<close>
  when the timer fired). Within one call of \<open>request\<close> the URL is fixed, and the loop
  sees a network: a function of the attempt alone.
\<close>

type_synonym network = "nat \<Rightarrow> fetch_result"

type_synonym server = "string \<Rightarrow> URLSearchParams \<Rightarrow> network"

text \<open>The \<open>try\<close> block: \<open>Inr\<close> is \<open>return data\<close>, \<open>Inl\<close> goes to \<open>catch\<close>.\<close>

definition try_block :: "fetch_result \<Rightarrow> thrown + json" where
  "try_block res =
     (case res of
        Rejected e \<Rightarrow> Inl e
      | Resolved response \<Rightarrow>
          (case body response of
             Inl message \<Rightarrow> Inl (Error ''SyntaxError'' message)
           | Inr data \<Rightarrow>
               if \<not> ok response then
                 (case data of
                    JNull \<Rightarrow>
                      Inl (Error ''TypeError'' ''Cannot read properties of null (reading 'error')'')
                  | JValue err code details rest \<Rightarrow>
                      Inl (ShotAPIException (or_string err ''Unknown error'') code details
                             (Some (status response))))
               else Inr data))"

text \<open>
  \<open>error instanceof ShotAPIException && error.statusCode && error.statusCode < 500\<close>
\<close>

definition client_error :: "thrown \<Rightarrow> bool" where
  "client_error e =
     (case e of
        ShotAPIException message code details statusCode \<Rightarrow>
          (case statusCode of None \<Rightarrow> False | Some n \<Rightarrow> n \<noteq> 0 \<and> n < 500)
      | _ \<Rightarrow> False)"

text \<open>An attempt that ends in \<open>catch\<close> and is not thrown again: the loop goes on.\<close>

definition retried :: "fetch_result \<Rightarrow> bool" where
  "retried res = (case try_block res of Inl e \<Rightarrow> \<not> client_error e | Inr data \<Rightarrow> False)"

function request_loop ::
  "'a ShotAPI_scheme \<Rightarrow> network \<Rightarrow> string \<Rightarrow> URLSearchParams \<Rightarrow> nat \<Rightarrow> thrown option
     \<Rightarrow> event list \<times> (thrown + json)" where
  "request_loop this net href params attempt lastError =
     (if int attempt \<le> this_retries this then
        (case try_block (net attempt) of
           Inr data \<Rightarrow> ([Fetch href params], Inr data)
         | Inl error \<Rightarrow>
             if client_error error then ([Fetch href params], Inl error)
             else
               (let wait = (if int attempt < this_retries this
                            then [Sleep (2 ^ attempt * 1000)] else []);
                    rest = request_loop this net href params (attempt + 1) (Some error)
                in (Fetch href params # wait @ fst rest, snd rest)))
      else
        ([], Inl (case lastError of
                    Some e \<Rightarrow>
                      if truthy_thrown e then e
                      else ShotAPIException ''Request failed after retries'' None None None
                  | None \<Rightarrow> ShotAPIException ''Request failed after retries'' None None None)))"
  by pat_completeness auto
termination
  by (relation "measure (\<lambda>(this, net, href, params, attempt, lastError).
        nat (this_retries this + 1 - int attempt))") auto

declare request_loop.simps [simp del]

definition request ::
  "'a ShotAPI_scheme \<Rightarrow> server \<Rightarrow> string \<Rightarrow> URLSearchParams \<Rightarrow> event list \<times> (thrown + json)" where
  "request this net endpoint params =
     (let href = this_baseUrl this @ endpoint
      in request_loop this (net href params) href params 0 None)"

subsection \<open>screenshot and batch\<close>

definition screenshot ::
  "'a ShotAPI_scheme \<Rightarrow> server \<Rightarrow> ScreenshotOptions \<Rightarrow> event list \<times> (thrown + json)" where
  "screenshot this net options =
     (if url options = [] then ([], Inl (ShotAPIException ''URL is required'' None None None))
      else case buildParams this options of
             Inl e \<Rightarrow> ([], Inl e)
           | Inr params \<Rightarrow> request this net ''/api/v1/screenshot'' params)"

text \<open>
  \<open>Promise.all\<close>: with every promise fulfilled, the values in the order of the promises;
  otherwise the reason of the promise that rejects first, \<open>order i\<close> being the time at
  which promise \<open>i\<close> settles (the lower index first among equal times).
\<close>

fun rejections :: "(nat \<Rightarrow> nat) \<Rightarrow> nat \<Rightarrow> (thrown + 'a) list \<Rightarrow> (nat \<times> thrown) list" where
  "rejections order i [] = []"
| "rejections order i (Inl e # ps) = (order i, e) # rejections order (Suc i) ps"
| "rejections order i (Inr v # ps) = rejections order (Suc i) ps"

fun earliest :: "(nat \<times> thrown) \<Rightarrow> (nat \<times> thrown) list \<Rightarrow> thrown" where
  "earliest r [] = snd r"
| "earliest r (q # qs) = earliest (if fst q < fst r then q else r) qs"

fun fulfilled :: "(thrown + 'a) list \<Rightarrow> 'a list" where
  "fulfilled [] = []"
| "fulfilled (Inl e # ps) = fulfilled ps"
| "fulfilled (Inr v # ps) = v # fulfilled ps"

definition Promise_all :: "(nat \<Rightarrow> nat) \<Rightarrow> (thrown + 'a) list \<Rightarrow> thrown + 'a list" where
  "Promise_all order ps =
     (case rejections order 0 ps of
        [] \<Rightarrow> Inr (fulfilled ps)
      | r # rs \<Rightarrow> Inl (earliest r rs))"

text \<open>
  In a batch, call \<open>i\<close> (counted from the start of the array it is mapped from) talks to
  the server \<open>nets i\<close>. The events of the calls themselves are not part of the batch's trace.
\<close>

fun calls ::
  "(server \<Rightarrow> ScreenshotOptions \<Rightarrow> event list \<times> (thrown + json)) \<Rightarrow> (nat \<Rightarrow> server)
     \<Rightarrow> ScreenshotOptions \<Rightarrow> nat \<Rightarrow> string list \<Rightarrow> (thrown + json) list" where
  "calls shot nets options i [] = []"
| "calls shot nets options i (u # us) =
     snd (shot (nets i) (options\<lparr>url := u\<rparr>)) # calls shot nets options (Suc i) us"

definition batch ::
  "'a ShotAPI_scheme \<Rightarrow> (nat \<Rightarrow> server) \<Rightarrow> (nat \<Rightarrow> nat) \<Rightarrow> string list \<Rightarrow> ScreenshotOptions
     \<Rightarrow> event list \<times> (thrown + json list)" where
  "batch this nets order urls options =
     (let promises = calls (screenshot this) nets options 0 urls
      in (map Screenshot urls @ [AwaitAll], Promise_all order promises))"

section \<open>The later generation of the client\<close>

text \<open>
  The repository holds a second, later source of the same class (its usage example imports
  it from \<open>@shotapi/sdk\<close>): it validates the options, keeps \<open>maxConcurrent\<close>, guards
  the explicit \<open>scale\<close>/\<open>mobile\<close> by \<open>!options.device\<close>, tests the status before
  parsing the body and batches in chunks. Its definitions carry the suffix \<open>2\<close>; where
  the two sources agree (\<open>preset_params\<close>, \<open>explicit_params\<close>, \<open>viewport_params\<close>,
  \<open>Promise_all\<close>, \<open>calls\<close>) one definition serves both.
\<close>

record ShotAPI2 = ShotAPI +
  this_maxConcurrent :: int

definition new_ShotAPI2 :: "ShotAPIConfig \<Rightarrow> thrown + ShotAPI2" where
  "new_ShotAPI2 config =
     (if apiKey config = []
      then Inl (ShotAPIException ''API key is required'' (Some ''MISSING_API_KEY'') None None)
      else Inr \<lparr>this_apiKey = apiKey config,
                this_baseUrl = or_string (baseUrl config) ''https://shotapi.dev'',
                this_timeout = or_int (timeout config) 30000,
                this_retries = nullish (retries config) 2,
                this_maxConcurrent = nullish (maxConcurrent config) 5\<rparr>)"

text \<open>
  \<open>new URL(url)\<close> is the platform's parser: it is a parameter, giving the \<open>protocol\<close>
  of the parsed URL, or \<open>None\<close> where the constructor throws.
\<close>

type_synonym URL_parser = "string \<Rightarrow> string option"

definition isValidUrl :: "URL_parser \<Rightarrow> string \<Rightarrow> bool" where
  "isValidUrl new_URL u =
     (case new_URL u of
        None \<Rightarrow> False
      | Some protocol \<Rightarrow> protocol = ''http:'' \<or> protocol = ''https:'')"

definition buildParams2 :: "'a ShotAPI_scheme \<Rightarrow> ScreenshotOptions \<Rightarrow> thrown + URLSearchParams" where
  "buildParams2 this options =
     (let params = [];
          params = params_set ''url'' (url options) params;
          params = params_set ''api_key'' (this_apiKey this) params
      in case viewport_params options params of
           Inl e \<Rightarrow> Inl e
         | Inr params \<Rightarrow>
             (let params = set_flag ''full_page'' (fullPage options) params;
                  params = set_string ''format'' (format options) params;
                  params = set_int ''quality'' (quality options) params;
                  params = (if \<not> truthy_string (device options)
                            then set_number ''scale'' (scale options) params else params);
                  params = set_int ''delay'' (delay options) params;
                  params = set_string ''wait_for'' (waitForSelector options) params;
                  params = set_flag ''dark_mode'' (darkMode options) params;
                  params = (if \<not> truthy_string (device options)
                            then set_flag ''mobile'' (mobile options) params else params);
                  params = set_string ''selector'' (selector options) params;
                  params = set_string ''css'' (css options) params;
                  params = set_string ''js'' (js options) params;
                  params = set_flag ''block_ads'' (blockAds options) params;
                  params = set_flag ''hide_cookie_banners'' (hideCookieBanners options) params;
                  params = set_int ''thumbnail_width'' (thumbnailWidth options) params
              in Inr params))"

text \<open>
  One pass of the loop body of the later \<open>request\<close>: it returns the data, throws out of
  the loop, or records \<open>lastError\<close> and goes on.
\<close>

datatype outcome = Return json | Throw thrown | Retry thrown

definition http_error :: "Response \<Rightarrow> thrown" where
  "http_error response =
     (let generic = ''HTTP '' @ int_toString (status response) @ '': '' @ statusText response
      in case body response of
           Inl message \<Rightarrow>
             ShotAPIException generic (Some ''HTTP_ERROR'') None (Some (status response))
         | Inr JNull \<Rightarrow>
             ShotAPIException generic (Some ''HTTP_ERROR'') None (Some (status response))
         | Inr (JValue err code details rest) \<Rightarrow>
             ShotAPIException (or_string err generic) (Some (or_string code ''HTTP_ERROR''))
               details (Some (status response)))"

definition catch_block :: "'a ShotAPI_scheme \<Rightarrow> thrown \<Rightarrow> outcome" where
  "catch_block this e =
     (case e of
        ShotAPIException message code details statusCode \<Rightarrow> Throw e
      | Error name message \<Rightarrow>
          if name = ''AbortError''
          then Retry (ShotAPIException
                        (''Request timeout after '' @ int_toString (this_timeout this) @ ''ms'')
                        (Some ''TIMEOUT'') None None)
          else Retry (ShotAPIException (if message \<noteq> [] then message else ''Network error'')
                        (Some ''NETWORK_ERROR'') None None)
      | NonError b \<Rightarrow>
          Retry (ShotAPIException ''Unknown error occurred'' (Some ''UNKNOWN_ERROR'') None None))"

definition attempt2 :: "'a ShotAPI_scheme \<Rightarrow> fetch_result \<Rightarrow> outcome" where
  "attempt2 this res =
     (case res of
        Rejected e \<Rightarrow> catch_block this e
      | Resolved response \<Rightarrow>
          if \<not> ok response then
            (if 400 \<le> status response \<and> status response < 500
             then catch_block this (http_error response)
             else Retry (http_error response))
          else
            (case body response of
               Inl message \<Rightarrow> catch_block this (Error ''SyntaxError'' message)
             | Inr data \<Rightarrow> Return data))"

definition retried2 :: "'a ShotAPI_scheme \<Rightarrow> fetch_result \<Rightarrow> bool" where
  "retried2 this res = (case attempt2 this res of Retry e \<Rightarrow> True | _ \<Rightarrow> False)"

function request_loop2 ::
  "'a ShotAPI_scheme \<Rightarrow> network \<Rightarrow> string \<Rightarrow> URLSearchParams \<Rightarrow> nat \<Rightarrow> thrown option
     \<Rightarrow> event list \<times> (thrown + json)" where
  "request_loop2 this net href params attempt lastError =
     (if int attempt \<le> this_retries this then
        (case attempt2 this (net attempt) of
           Return data \<Rightarrow> ([Fetch href params], Inr data)
         | Throw error \<Rightarrow> ([Fetch href params], Inl error)
         | Retry error \<Rightarrow>
             (let wait = (if int attempt < this_retries this
                          then [Sleep (2 ^ attempt * 1000)] else []);
                  rest = request_loop2 this net href params (attempt + 1) (Some error)
              in (Fetch href params # wait @ fst rest, snd rest)))
      else
        ([], Inl (case lastError of
                    Some e \<Rightarrow>
                      if truthy_thrown e then e
                      else ShotAPIException ''Request failed after retries''
                             (Some ''MAX_RETRIES'') None None
                  | None \<Rightarrow>
                      ShotAPIException ''Request failed after retries'' (Some ''MAX_RETRIES'')
                        None None)))"
  by pat_completeness auto
termination
  by (relation "measure (\<lambda>(this, net, href, params, attempt, lastError).
        nat (this_retries this + 1 - int attempt))") auto

declare request_loop2.simps [simp del]

definition request2 ::
  "'a ShotAPI_scheme \<Rightarrow> server \<Rightarrow> string \<Rightarrow> URLSearchParams \<Rightarrow> event list \<times> (thrown + json)" where
  "request2 this net endpoint params =
     (let href = this_baseUrl this @ endpoint
      in request_loop2 this (net href params) href params 0 None)"

definition screenshot2 ::
  "URL_parser \<Rightarrow> 'a ShotAPI_scheme \<Rightarrow> server \<Rightarrow> ScreenshotOptions
     \<Rightarrow> event list \<times> (thrown + json)" where
  "screenshot2 new_URL this net options =
     (if url options = []
      then ([], Inl (ShotAPIException ''URL is required'' (Some ''MISSING_URL'') None None))
      else if \<not> isValidUrl new_URL (url options)
      then ([], Inl (ShotAPIException
                       (''Invalid URL: '' @ url options
                          @ ''. URL must start with http:// or https://'')
                       (Some ''INVALID_URL'') None None))
      else if (case quality options of None \<Rightarrow> False | Some q \<Rightarrow> q < 1 \<or> q > 100)
      then ([], Inl (ShotAPIException ''Quality must be between 1 and 100''
                       (Some ''INVALID_QUALITY'') None None))
      else if (case delay options of None \<Rightarrow> False | Some d \<Rightarrow> d < 0 \<or> d > 10000)
      then ([], Inl (ShotAPIException ''Delay must be between 0 and 10000 milliseconds''
                       (Some ''INVALID_DELAY'') None None))
      else case buildParams2 this options of
             Inl e \<Rightarrow> ([], Inl e)
           | Inr params \<Rightarrow> request2 this net ''/api/v1/screenshot'' params)"

text \<open>
  \<open>urls.slice(i, j)\<close>: a negative bound counts from the end, and both are clamped to the
  array. \<open>slice_start\<close> is the index of the first element taken.
\<close>

definition slice_index :: "'a list \<Rightarrow> int \<Rightarrow> nat" where
  "slice_index xs i =
     (if i < 0 then nat (max 0 (int (length xs) + i)) else min (nat i) (length xs))"

definition slice :: "'a list \<Rightarrow> int \<Rightarrow> int \<Rightarrow> 'a list" where
  "slice xs i j = take (slice_index xs j - slice_index xs i) (drop (slice_index xs i) xs)"

text \<open>
  The loop of the later \<open>batch\<close> need not end (\<open>i += this.maxConcurrent\<close> with a
  \<open>maxConcurrent\<close> of 0 or less): \<open>None\<close> is a call that never returns.
\<close>

partial_function (option) batch_loop2 ::
  "URL_parser \<Rightarrow> ShotAPI2 \<Rightarrow> (nat \<Rightarrow> server) \<Rightarrow> (nat \<Rightarrow> nat) \<Rightarrow> string list
     \<Rightarrow> ScreenshotOptions \<Rightarrow> int \<Rightarrow> json list \<Rightarrow> event list
     \<Rightarrow> (event list \<times> (thrown + json list)) option" where
  "batch_loop2 new_URL this nets order urls options i results trace =
     (if i < int (length urls) then
        (let chunk = slice urls i (i + this_maxConcurrent this);
             start = slice_index urls i;
             promises = calls (screenshot2 new_URL this) (\<lambda>k. nets (start + k)) options 0 chunk;
             trace = trace @ map Screenshot chunk @ [AwaitAll]
         in case Promise_all (\<lambda>k. order (start + k)) promises of
              Inl e \<Rightarrow> Some (trace, Inl e)
            | Inr chunkResults \<Rightarrow>
                batch_loop2 new_URL this nets order urls options (i + this_maxConcurrent this)
                  (results @ chunkResults)
                  (if i + this_maxConcurrent this < int (length urls)
                   then trace @ [Sleep 100] else trace))
      else Some (trace, Inr results))"

declare batch_loop2.simps [code]

definition batch2 ::
  "URL_parser \<Rightarrow> ShotAPI2 \<Rightarrow> (nat \<Rightarrow> server) \<Rightarrow> (nat \<Rightarrow> nat) \<Rightarrow> string list
     \<Rightarrow> ScreenshotOptions \<Rightarrow> (event list \<times> (thrown + json list)) option" where
  "batch2 new_URL this nets order urls options =
     batch_loop2 new_URL this nets order urls options 0 [] []"

section \<open>Notions of the specification\<close>

text \<open>
  A retryable failure: a 5xx response, or a network-level failure, where \<open>fetch\<close> rejects
  with an \<open>Error\<close> (a \<open>TypeError\<close> for a connection error, an \<open>AbortError\<close> when
  the deadline has passed).
\<close>

definition retryable :: "fetch_result \<Rightarrow> bool" where
  "retryable res =
     (case res of
        Resolved response \<Rightarrow> 500 \<le> status response \<and> status response \<le> 599
      | Rejected (Error name message) \<Rightarrow> True
      | Rejected _ \<Rightarrow> False)"

text \<open>
  \<open>k\<close> failed attempts, the first one numbered \<open>a\<close>, each followed by its wait of
  \<open>2 ^ n\<close> seconds.
\<close>

definition backoff :: "string \<Rightarrow> URLSearchParams \<Rightarrow> nat \<Rightarrow> nat \<Rightarrow> event list" where
  "backoff href params a k =
     concat (map (\<lambda>n. [Fetch href params, Sleep (2 ^ n * 1000)]) [a..<a + k])"

text \<open>Consecutive chunks of at most \<open>c\<close> elements, in the order of the list.\<close>

function chunks :: "nat \<Rightarrow> 'a list \<Rightarrow> 'a list list" where
  "chunks c xs = (if c = 0 \<or> xs = [] then [] else take c xs # chunks c (drop c xs))"
  by pat_completeness auto
termination
  by (relation "measure (\<lambda>(c, xs). length xs)") auto

declare chunks.simps [simp del]

text \<open>
  The trace of a batch run chunk by chunk: the calls of a chunk, the wait for all of them,
  and 100 ms before the next chunk, if there is one.
\<close>

fun paced :: "string list list \<Rightarrow> event list" where
  "paced [] = []"
| "paced [c] = map Screenshot c @ [AwaitAll]"
| "paced (c # d # cs) = map Screenshot c @ [AwaitAll, Sleep 100] @ paced (d # cs)"

definition is_ShotAPIException :: "thrown \<Rightarrow> bool" where
  "is_ShotAPIException e = (case e of ShotAPIException m c d s \<Rightarrow> True | _ \<Rightarrow> False)"

subsection \<open>Values of the examples\<close>

text \<open>\<open>new ShotAPI({ apiKey: 'key' })\<close> and the options \<open>{ url: u }\<close>.\<close>

definition example_client :: ShotAPI where
  "example_client =
     \<lparr>this_apiKey = ''key'', this_baseUrl = ''https://shotapi.dev'', this_timeout = 30000,
      this_retries = 2\<rparr>"

definition only_url :: "string \<Rightarrow> ScreenshotOptions" where
  "only_url u =
     \<lparr>url = u, width = None, height = None, device = None, fullPage = None, format = None,
      quality = None, scale = None, delay = None, waitForSelector = None, selector = None,
      css = None, js = None, blockAds = None, hideCookieBanners = None, darkMode = None,
      mobile = None, thumbnailWidth = None\<rparr>"

text \<open>A server that answers every request and every attempt alike.\<close>

definition always :: "int \<Rightarrow> string \<Rightarrow> string + json \<Rightarrow> server" where
  "always code text content =
     (\<lambda>href params attempt. Resolved \<lparr>status = code, statusText = text, body = content\<rparr>)"

text \<open>A server that answers every request with the \<open>url\<close> parameter it was sent.\<close>

definition echo :: server where
  "echo =
     (\<lambda>href params attempt.
        Resolved \<lparr>status = 200, statusText = ''OK'',
                  body = Inr (JValue None None None
                                (case params_get params ''url'' of None \<Rightarrow> [] | Some u \<Rightarrow> u))\<rparr>)"

section \<open>URLSearchParams: reading after writing\<close>

lemma map_of_filter_other:
  "k' \<noteq> k \<Longrightarrow> map_of (filter (\<lambda>q. fst q \<noteq> k) ps) k' = map_of ps k'"
  by (induction ps) auto

lemma params_get_set:
  "params_get (params_set k v ps) k' = (if k' = k then Some v else params_get ps k')"
  unfolding params_get_def
  by (induction ps) (auto simp: map_of_filter_other)

lemma params_get_set_flag:
  "params_get (set_flag k x ps) k' =
     (if k' = k \<and> truthy_bool x then Some ''true'' else params_get ps k')"
  by (simp add: set_flag_def params_get_set)

lemma params_get_set_string:
  "params_get (set_string k x ps) k' =
     (if k' = k \<and> truthy_string x then x else params_get ps k')"
  by (auto simp: set_string_def truthy_string_def params_get_set split: option.splits)

lemma params_get_set_int:
  "params_get (set_int k x ps) k' =
     (if k' = k \<and> truthy_int x then map_option int_toString x else params_get ps k')"
  by (auto simp: set_int_def truthy_int_def params_get_set split: option.splits)

lemma params_get_set_number:
  "params_get (set_number k x ps) k' =
     (if k' = k \<and> truthy_number x then map_option number_toString x else params_get ps k')"
  by (auto simp: set_number_def truthy_number_def params_get_set split: option.splits)

lemmas params_get_simps =
  params_get_set params_get_set_flag params_get_set_string params_get_set_int params_get_set_number

section \<open>buildParams\<close>

subsection \<open>A device that is no preset\<close>

lemma viewport_params_unknown:
  assumes "device options = Some name" and "name \<noteq> []" and "map_of DEVICE_PRESETS name = None"
  shows "viewport_params options params =
           (if name \<in> set Object_prototype
            then Inl (Error ''TypeError'' ''Cannot read properties of undefined (reading 'toString')'')
            else Inr params)"
  using assms by (simp add: viewport_params_def preset_params_def getDevicePreset_def)

text \<open>
  Claim C10, as amended. With \<open>device\<close> set to a non-empty string that is neither a
  name of the preset table nor the name of a property that \<open>DEVICE_PRESETS\<close> inherits
  from \<open>Object.prototype\<close>, \<open>buildParams\<close> of \<open>src/index.ts\<close> emits no \<open>width\<close>
  and no \<open>height\<close>, neither from a preset nor from the options, and \<open>scale\<close> and
  \<open>mobile\<close> exactly as the options give them explicitly.
\<close>

theorem buildParams_unknown_device:
  assumes "device options = Some name" and "name \<noteq> []" and "map_of DEVICE_PRESETS name = None"
    and "name \<notin> set Object_prototype"
  shows "\<exists>params. buildParams this options = Inr params
           \<and> params_get params ''width'' = None
           \<and> params_get params ''height'' = None
           \<and> params_get params ''scale''
               = (if truthy_number (scale options) then map_option number_toString (scale options)
                  else None)
           \<and> params_get params ''mobile''
               = (if truthy_bool (mobile options) then Some ''true'' else None)"
  using assms(4)
  unfolding buildParams_def Let_def viewport_params_unknown [OF assms(1-3)]
  by (simp add: params_get_simps) (simp add: params_get_def)

theorem buildParams_unknown_device_witness:
  "\<exists>params. buildParams example_client
       ((only_url ''https://example.com'')
          \<lparr>device := Some ''nexus-5'', width := Some 800, height := Some 600, scale := Some 2,
           mobile := Some True\<rparr>) = Inr params
     \<and> params_get params ''width'' = None \<and> params_get params ''height'' = None
     \<and> params_get params ''scale'' = Some ''2'' \<and> params_get params ''mobile'' = Some ''true''"
proof -
  let ?options = "(only_url ''https://example.com'')
          \<lparr>device := Some ''nexus-5'', width := Some 800, height := Some 600, scale := Some 2,
           mobile := Some True\<rparr>"
  have named: "device ?options = Some ''nexus-5''" by simp
  have set: "''nexus-5'' \<noteq> []" by simp
  have absent: "map_of DEVICE_PRESETS ''nexus-5'' = None" by code_simp
  have own: "''nexus-5'' \<notin> set Object_prototype" by code_simp
  have two: "number_toString 2 = ''2''" by code_simp
  have given: "truthy_number (Some 2)" by code_simp
  show ?thesis
    using buildParams_unknown_device [OF named set absent own, of example_client] two given
    by (simp add: truthy_bool_def)
qed

text \<open>
  The claim as first stated, for every string that is not in the preset table, fails in
  two places. The empty string is not in the table, but \<open>if (options.device)\<close> is false
  for it: the \<open>else\<close> branch runs and the explicit \<open>width\<close> and \<open>height\<close> are
  emitted. And \<open>constructor\<close> is not in the table, but \<open>DEVICE_PRESETS['constructor']\<close>
  is the function \<open>Object\<close>: \<open>preset.width.toString()\<close> throws a \<open>TypeError\<close> and no
  parameters are built.
\<close>

theorem buildParams_unknown_device_counterexample:
  "map_of DEVICE_PRESETS [] = None
   \<and> buildParams example_client
       ((only_url ''https://example.com'')
          \<lparr>device := Some [], width := Some 800, height := Some 600\<rparr>)
     = Inr [(''url'', ''https://example.com''), (''api_key'', ''key''), (''width'', ''800''),
            (''height'', ''600'')]
   \<and> map_of DEVICE_PRESETS ''constructor'' = None
   \<and> buildParams example_client
       ((only_url ''https://example.com'')\<lparr>device := Some ''constructor'', width := Some 800\<rparr>)
     = Inl (Error ''TypeError'' ''Cannot read properties of undefined (reading 'toString')'')"
  by code_simp

text \<open>The later \<open>buildParams\<close> emits none of the four there.\<close>

lemma buildParams2_unknown_device:
  assumes "device options = Some name" and "name \<noteq> []" and "map_of DEVICE_PRESETS name = None"
    and "name \<notin> set Object_prototype"
  shows "\<exists>params. buildParams2 this options = Inr params
           \<and> params_get params ''width'' = None \<and> params_get params ''height'' = None
           \<and> params_get params ''scale'' = None \<and> params_get params ''mobile'' = None"
  using assms(1,2,4)
  unfolding buildParams2_def Let_def viewport_params_unknown [OF assms(1-3)]
  by (simp add: params_get_simps truthy_string_def) (simp add: params_get_def)

subsection \<open>A device that is a preset\<close>

lemma preset_name_nonempty: "map_of DEVICE_PRESETS name = Some preset \<Longrightarrow> name \<noteq> []"
  by (auto simp: DEVICE_PRESETS_def)

text \<open>
  In the later \<open>buildParams\<close> the preset wins: the explicit \<open>width\<close>, \<open>height\<close>,
  \<open>scale\<close> and \<open>mobile\<close> of the options change nothing, and the four parameters are
  those of the table.
\<close>

lemma buildParams2_preset_wins:
  assumes "device options = Some name" and "map_of DEVICE_PRESETS name = Some preset"
  shows "buildParams2 this (options\<lparr>width := w, height := h, scale := s, mobile := m\<rparr>)
           = buildParams2 this options"
    and "\<exists>params. buildParams2 this options = Inr params
           \<and> params_get params ''width'' = Some (int_toString (preset_width preset))
           \<and> params_get params ''height'' = Some (int_toString (preset_height preset))
           \<and> params_get params ''mobile'' = (if preset_mobile preset then Some ''true'' else None)
           \<and> params_get params ''scale''
               = (if preset_scale preset \<noteq> 1 then Some (number_toString (preset_scale preset))
                  else None)"
proof -
  have name: "name \<noteq> []" using assms(2) by (rule preset_name_nonempty)
  have vp: "viewport_params (options\<lparr>width := w, height := h, scale := s, mobile := m\<rparr>) ps
              = viewport_params options ps" for ps
    using assms(1) name by (simp add: viewport_params_def)
  show "buildParams2 this (options\<lparr>width := w, height := h, scale := s, mobile := m\<rparr>)
           = buildParams2 this options"
    using assms(1) name by (simp add: buildParams2_def vp truthy_string_def cong: sum.case_cong)
  have "viewport_params options ps = preset_params name ps" for ps
    using assms(1) name by (simp add: viewport_params_def)
  then show "\<exists>params. buildParams2 this options = Inr params
           \<and> params_get params ''width'' = Some (int_toString (preset_width preset))
           \<and> params_get params ''height'' = Some (int_toString (preset_height preset))
           \<and> params_get params ''mobile'' = (if preset_mobile preset then Some ''true'' else None)
           \<and> params_get params ''scale''
               = (if preset_scale preset \<noteq> 1 then Some (number_toString (preset_scale preset))
                  else None)"
    using assms name
    by (simp add: buildParams2_def preset_params_def getDevicePreset_def Let_def
        truthy_string_def params_get_simps) (simp add: params_get_def)
qed

text \<open>
  Claim C1. With a device preset named, \<open>width\<close>, \<open>height\<close>, \<open>mobile\<close> and \<open>scale\<close>
  come from the preset table alone. \<open>buildParams\<close> of \<open>src/index.ts\<close> does so for
  \<open>width\<close> and \<open>height\<close> only: it then runs \<open>if (options.scale) params.set('scale', ...)\<close>
  and \<open>if (options.mobile) params.set('mobile', 'true')\<close> without regard to the device.
  For \<open>iphone-14-pro\<close> with \<open>width: 999, scale: 2\<close> it emits \<open>scale=2\<close>, not the
  preset's 3; for \<open>desktop\<close>, whose preset is not mobile, with \<open>mobile: true\<close> it
  emits \<open>mobile=true\<close>. The later \<open>buildParams\<close> emits \<open>scale=3\<close> and no
  \<open>mobile\<close> on the same options.
\<close>

theorem buildParams_explicit_scale_replaces_preset:
  "buildParams example_client
     ((only_url ''https://example.com'')
        \<lparr>device := Some ''iphone-14-pro'', width := Some 999, scale := Some 2\<rparr>)
     = Inr [(''url'', ''https://example.com''), (''api_key'', ''key''), (''width'', ''393''),
            (''height'', ''852''), (''mobile'', ''true''), (''scale'', ''2'')]
   \<and> buildParams example_client
     ((only_url ''https://example.com'')\<lparr>device := Some ''desktop'', mobile := Some True\<rparr>)
     = Inr [(''url'', ''https://example.com''), (''api_key'', ''key''), (''width'', ''1920''),
            (''height'', ''1080''), (''mobile'', ''true'')]
   \<and> buildParams2 example_client
     ((only_url ''https://example.com'')
        \<lparr>device := Some ''iphone-14-pro'', width := Some 999, scale := Some 2\<rparr>)
     = Inr [(''url'', ''https://example.com''), (''api_key'', ''key''), (''width'', ''393''),
            (''height'', ''852''), (''mobile'', ''true''), (''scale'', ''3'')]
   \<and> buildParams2 example_client
     ((only_url ''https://example.com'')\<lparr>device := Some ''desktop'', mobile := Some True\<rparr>)
     = Inr [(''url'', ''https://example.com''), (''api_key'', ''key''), (''width'', ''1920''),
            (''height'', ''1080'')]"
  by code_simp

section \<open>request\<close>

subsection \<open>Retries and their waits\<close>

lemma retryable_retried:
  assumes "retryable res"
  shows "retried res"
proof (cases res)
  case (Rejected e)
  with assms show ?thesis
    by (cases e) (simp_all add: retryable_def retried_def try_block_def client_error_def)
next
  case (Resolved response)
  with assms have st: "500 \<le> status response" "\<not> ok response"
    by (simp_all add: retryable_def ok_def)
  show ?thesis
  proof (cases "body response")
    case (Inl message)
    with Resolved show ?thesis by (simp add: retried_def try_block_def client_error_def)
  next
    case (Inr data)
    with Resolved st show ?thesis
      by (cases data) (simp_all add: retried_def try_block_def client_error_def)
  qed
qed

lemma retried_caught: "retried res \<Longrightarrow> \<exists>e. try_block res = Inl e \<and> \<not> client_error e"
  by (cases "try_block res") (simp_all add: retried_def)

lemma request_loop_lastError:
  assumes "int a \<le> this_retries this"
  shows "request_loop this net href params a le = request_loop this net href params a le'"
  using assms
  by (subst request_loop.simps, subst (2) request_loop.simps) simp

lemma request_loop_retry:
  assumes "retried (net a)" and "int a < this_retries this"
  shows "request_loop this net href params a le =
           (Fetch href params # Sleep (2 ^ a * 1000)
              # fst (request_loop this net href params (Suc a) None),
            snd (request_loop this net href params (Suc a) None))"
proof -
  from retried_caught [OF assms(1)] obtain e
    where e: "try_block (net a) = Inl e" "\<not> client_error e" by blast
  have next_ok: "int (Suc a) \<le> this_retries this" using assms(2) by simp
  have "request_loop this net href params a le =
          (Fetch href params # Sleep (2 ^ a * 1000)
             # fst (request_loop this net href params (Suc a) (Some e)),
           snd (request_loop this net href params (Suc a) (Some e)))"
    using assms(2) e by (subst request_loop.simps) (simp add: Let_def)
  then show ?thesis
    by (simp add: request_loop_lastError [OF next_ok, of net href params "Some e" None])
qed

lemma backoff_Suc:
  "backoff href params a (Suc k) =
     Fetch href params # Sleep (2 ^ a * 1000) # backoff href params (Suc a) k"
  by (simp add: backoff_def upt_conv_Cons)

lemma request_loop_backoff:
  assumes "\<forall>n<k. retried (net (a + n))" and "int (a + k) \<le> this_retries this"
  shows "request_loop this net href params a le =
           (backoff href params a k @ fst (request_loop this net href params (a + k) None),
            snd (request_loop this net href params (a + k) None))"
  using assms
proof (induction k arbitrary: a le)
  case 0
  then show ?case
    by (simp add: backoff_def request_loop_lastError [of a this net href params le None])
next
  case (Suc k)
  have first: "retried (net a)" using Suc.prems(1) by (metis add.right_neutral zero_less_Suc)
  have small: "int a < this_retries this" using Suc.prems(2) by simp
  have rest: "\<forall>n<k. retried (net (Suc a + n))"
    using Suc.prems(1) by (metis Suc_less_eq add_Suc_shift)
  have bound: "int (Suc a + k) \<le> this_retries this" using Suc.prems(2) by simp
  show ?case
    by (simp add: request_loop_retry [where net = net and a = a, OF first small]
        Suc.IH [OF rest bound] backoff_Suc)
qed

lemma request_loop_success:
  assumes "int a \<le> this_retries this" and "net a = Resolved response" and "ok response"
    and "body response = Inr data"
  shows "request_loop this net href params a le = ([Fetch href params], Inr data)"
  using assms by (subst request_loop.simps) (simp add: try_block_def)

lemma request_loop_exhausted:
  assumes "int a = this_retries this" and "retried (net a)"
  shows "\<exists>e. request_loop this net href params a le = ([Fetch href params], Inl e)"
proof -
  from retried_caught [OF assms(2)] obtain e
    where e: "try_block (net a) = Inl e" "\<not> client_error e" by blast
  have "\<exists>x. request_loop this net href params (a + 1) (Some e) = ([], Inl x)"
    using assms(1) by (subst request_loop.simps) simp
  then have "\<exists>x. request_loop this net href params a le = ([Fetch href params], Inl x)"
    using assms(1) e by (subst request_loop.simps) (auto simp: Let_def)
  then show ?thesis .
qed

text \<open>
  Claim C7. Let attempt \<open>k\<close> be reached, every attempt before it having been retried.
  If attempt \<open>k\<close> succeeds, the call returns its payload, and the waits so far were
  1 s, 2 s, ..., \<open>2 ^ (k - 1)\<close> s, one after each failed attempt. If attempt \<open>k\<close> is a
  retryable failure and \<open>k\<close> is less than \<open>retries\<close>, the call waits exactly \<open>2 ^ k\<close>
  seconds and then makes attempt \<open>k + 1\<close>. If it is a retryable failure and \<open>k\<close> is
  \<open>retries\<close>, the call throws with no wait after this final attempt.
\<close>

theorem request_exponential_backoff:
  assumes "\<forall>n<k. retried (net (this_baseUrl this @ endpoint) params n)"
    and "int k \<le> this_retries this"
  shows "(net (this_baseUrl this @ endpoint) params k = Resolved response \<and> ok response
            \<and> body response = Inr data \<longrightarrow>
            request this net endpoint params
              = (backoff (this_baseUrl this @ endpoint) params 0 k
                   @ [Fetch (this_baseUrl this @ endpoint) params], Inr data))
       \<and> (retryable (net (this_baseUrl this @ endpoint) params k) \<and> int k < this_retries this \<longrightarrow>
            (\<exists>rest. fst (request this net endpoint params)
               = backoff (this_baseUrl this @ endpoint) params 0 k
                   @ [Fetch (this_baseUrl this @ endpoint) params, Sleep (2 ^ k * 1000),
                      Fetch (this_baseUrl this @ endpoint) params] @ rest))
       \<and> (retryable (net (this_baseUrl this @ endpoint) params k) \<and> int k = this_retries this \<longrightarrow>
            (\<exists>e. request this net endpoint params
               = (backoff (this_baseUrl this @ endpoint) params 0 k
                    @ [Fetch (this_baseUrl this @ endpoint) params], Inl e)))"
proof -
  let ?href = "this_baseUrl this @ endpoint"
  let ?net = "net ?href params"
  have pre: "\<forall>n<k. retried (?net (0 + n))" using assms(1) by simp
  have bound: "int (0 + k) \<le> this_retries this" using assms(2) by simp
  note split = request_loop_backoff [where net = ?net and a = 0 and k = k, OF pre bound,
      of ?href params None, simplified]
  have "request this net endpoint params = (backoff ?href params 0 k @ [Fetch ?href params], Inr data)"
    if "?net k = Resolved response" "ok response" "body response = Inr data"
    using request_loop_success [where net = ?net and a = k, OF assms(2) that, of ?href params None]
    by (simp add: request_def Let_def split)
  moreover have "\<exists>e. request this net endpoint params
               = (backoff ?href params 0 k @ [Fetch ?href params], Inl e)"
    if "retryable (?net k)" "int k = this_retries this"
    using request_loop_exhausted [where net = ?net and a = k,
        OF that(2) retryable_retried [OF that(1)], of ?href params None]
    by (auto simp: request_def Let_def split)
  moreover have "\<exists>rest. fst (request this net endpoint params)
               = backoff ?href params 0 k
                   @ [Fetch ?href params, Sleep (2 ^ k * 1000), Fetch ?href params] @ rest"
    if r: "retryable (?net k)" and lt: "int k < this_retries this"
  proof -
    have le: "int (Suc k) \<le> this_retries this" using lt by simp
    have "\<exists>rest. fst (request_loop this ?net ?href params (Suc k) None) = Fetch ?href params # rest"
      using le by (subst request_loop.simps) (auto simp: Let_def split: sum.splits)
    then show ?thesis
      by (auto simp: request_def Let_def split
          request_loop_retry [where net = ?net and a = k, OF retryable_retried [OF r] lt])
  qed
  ultimately show ?thesis by blast
qed

theorem request_exponential_backoff_witness:
  "request example_client
     (\<lambda>href params n. if n < 2
           then Resolved \<lparr>status = 503, statusText = ''Service Unavailable'',
                          body = Inr (JValue (Some ''overloaded'') None None [])\<rparr>
           else Resolved \<lparr>status = 200, statusText = ''OK'',
                          body = Inr (JValue None None None ''shot.png'')\<rparr>)
     ''/api/v1/screenshot'' []
     = ([Fetch ''https://shotapi.dev/api/v1/screenshot'' [], Sleep 1000,
         Fetch ''https://shotapi.dev/api/v1/screenshot'' [], Sleep 2000,
         Fetch ''https://shotapi.dev/api/v1/screenshot'' []],
        Inr (JValue None None None ''shot.png''))"
proof -
  let ?net = "\<lambda>(href::string) (params::URLSearchParams) (n::nat). if n < 2
           then Resolved \<lparr>status = 503, statusText = ''Service Unavailable'',
                          body = Inr (JValue (Some ''overloaded'') None None [])\<rparr>
           else Resolved \<lparr>status = 200, statusText = ''OK'',
                          body = Inr (JValue None None None ''shot.png'')\<rparr>"
  let ?ok = "\<lparr>status = 200, statusText = ''OK'', body = Inr (JValue None None None ''shot.png'')\<rparr>"
  have failures: "\<forall>n<2. retried (?net (this_baseUrl example_client @ ''/api/v1/screenshot'') [] n)"
    by (simp add: retried_def try_block_def ok_def client_error_def)
  have bound: "int 2 \<le> this_retries example_client" by (simp add: example_client_def)
  have trace: "backoff ''https://shotapi.dev/api/v1/screenshot'' [] 0 2
      = [Fetch ''https://shotapi.dev/api/v1/screenshot'' [], Sleep 1000,
         Fetch ''https://shotapi.dev/api/v1/screenshot'' [], Sleep 2000]"
    by code_simp
  have base: "this_baseUrl example_client @ ''/api/v1/screenshot''
      = ''https://shotapi.dev/api/v1/screenshot''"
    by (simp add: example_client_def)
  show ?thesis
    using request_exponential_backoff [where net = ?net and k = 2 and this = example_client
        and endpoint = "''/api/v1/screenshot''" and params = "[]",
        OF failures bound, of ?ok "JValue None None None ''shot.png''"]
    by (simp add: ok_def trace base)
qed

text \<open>The later \<open>request\<close> waits in the same way.\<close>

lemma retryable_retried2: "retryable res \<Longrightarrow> retried2 this res"
proof (cases res)
  case (Rejected e)
  assume "retryable res"
  with Rejected show ?thesis
    by (cases e) (simp_all add: retryable_def retried2_def attempt2_def catch_block_def)
next
  case (Resolved response)
  assume "retryable res"
  with Resolved have "500 \<le> status response" by (simp add: retryable_def)
  with Resolved show ?thesis by (simp add: retried2_def attempt2_def ok_def)
qed

lemma retried2_Retry: "retried2 this res \<Longrightarrow> \<exists>e. attempt2 this res = Retry e"
  by (cases "attempt2 this res") (simp_all add: retried2_def)

lemma request_loop2_lastError:
  assumes "int a \<le> this_retries this"
  shows "request_loop2 this net href params a le = request_loop2 this net href params a le'"
  using assms
  by (subst request_loop2.simps, subst (2) request_loop2.simps) simp

lemma request_loop2_retry:
  assumes "retried2 this (net a)" and "int a < this_retries this"
  shows "request_loop2 this net href params a le =
           (Fetch href params # Sleep (2 ^ a * 1000)
              # fst (request_loop2 this net href params (Suc a) None),
            snd (request_loop2 this net href params (Suc a) None))"
proof -
  from retried2_Retry [OF assms(1)] obtain e
    where e: "attempt2 this (net a) = Retry e" by blast
  have next_ok: "int (Suc a) \<le> this_retries this" using assms(2) by simp
  have "request_loop2 this net href params a le =
          (Fetch href params # Sleep (2 ^ a * 1000)
             # fst (request_loop2 this net href params (Suc a) (Some e)),
           snd (request_loop2 this net href params (Suc a) (Some e)))"
    using assms(2) e by (subst request_loop2.simps) (simp add: Let_def)
  then show ?thesis
    by (simp add: request_loop2_lastError [OF next_ok, of net href params "Some e" None])
qed

lemma request_loop2_backoff:
  assumes "\<forall>n<k. retried2 this (net (a + n))" and "int (a + k) \<le> this_retries this"
  shows "request_loop2 this net href params a le =
           (backoff href params a k @ fst (request_loop2 this net href params (a + k) None),
            snd (request_loop2 this net href params (a + k) None))"
  using assms
proof (induction k arbitrary: a le)
  case 0
  then show ?case
    by (simp add: backoff_def request_loop2_lastError [of a this net href params le None])
next
  case (Suc k)
  have first: "retried2 this (net a)"
    using Suc.prems(1) by (metis add.right_neutral zero_less_Suc)
  have small: "int a < this_retries this" using Suc.prems(2) by simp
  have rest: "\<forall>n<k. retried2 this (net (Suc a + n))"
    using Suc.prems(1) by (metis Suc_less_eq add_Suc_shift)
  have bound: "int (Suc a + k) \<le> this_retries this" using Suc.prems(2) by simp
  show ?case
    by (simp add: request_loop2_retry [where net = net and a = a, OF first small]
        Suc.IH [OF rest bound] backoff_Suc)
qed

lemma request2_exponential_backoff:
  assumes "\<forall>n<k. retried2 this (net (this_baseUrl this @ endpoint) params n)"
    and "int k \<le> this_retries this"
  shows "net (this_baseUrl this @ endpoint) params k = Resolved response \<Longrightarrow> ok response \<Longrightarrow>
           body response = Inr data \<Longrightarrow>
            request2 this net endpoint params
              = (backoff (this_baseUrl this @ endpoint) params 0 k
                   @ [Fetch (this_baseUrl this @ endpoint) params], Inr data)"
    and "retryable (net (this_baseUrl this @ endpoint) params k) \<Longrightarrow> int k = this_retries this \<Longrightarrow>
            \<exists>e. request2 this net endpoint params
               = (backoff (this_baseUrl this @ endpoint) params 0 k
                    @ [Fetch (this_baseUrl this @ endpoint) params], Inl e)"
    and "retryable (net (this_baseUrl this @ endpoint) params k) \<Longrightarrow> int k < this_retries this \<Longrightarrow>
            \<exists>rest. fst (request2 this net endpoint params)
               = backoff (this_baseUrl this @ endpoint) params 0 k
                   @ [Fetch (this_baseUrl this @ endpoint) params, Sleep (2 ^ k * 1000),
                      Fetch (this_baseUrl this @ endpoint) params] @ rest"
proof -
  let ?href = "this_baseUrl this @ endpoint"
  let ?net = "net ?href params"
  have pre: "\<forall>n<k. retried2 this (?net (0 + n))" using assms(1) by simp
  have bound: "int (0 + k) \<le> this_retries this" using assms(2) by simp
  note split = request_loop2_backoff [where net = ?net and a = 0 and k = k, OF pre bound,
      of ?href params None, simplified]
  show "request2 this net endpoint params = (backoff ?href params 0 k @ [Fetch ?href params], Inr data)"
    if "?net k = Resolved response" "ok response" "body response = Inr data"
  proof -
    have "request_loop2 this ?net ?href params k None = ([Fetch ?href params], Inr data)"
      using assms(2) that by (subst request_loop2.simps) (simp add: attempt2_def)
    then show ?thesis by (simp add: request2_def Let_def split)
  qed
  show "\<exists>e. request2 this net endpoint params
               = (backoff ?href params 0 k @ [Fetch ?href params], Inl e)"
    if r: "retryable (?net k)" and last: "int k = this_retries this"
  proof -
    from retried2_Retry [OF retryable_retried2 [OF r]] obtain e
      where e: "attempt2 this (?net k) = Retry e" by blast
    have "\<exists>x. request_loop2 this ?net ?href params (k + 1) (Some e) = ([], Inl x)"
      using last by (subst request_loop2.simps) simp
    then have "\<exists>x. request_loop2 this ?net ?href params k None = ([Fetch ?href params], Inl x)"
      using last e by (subst request_loop2.simps) (auto simp: Let_def)
    then show ?thesis by (auto simp: request2_def Let_def split)
  qed
  show "\<exists>rest. fst (request2 this net endpoint params)
               = backoff ?href params 0 k
                   @ [Fetch ?href params, Sleep (2 ^ k * 1000), Fetch ?href params] @ rest"
    if r: "retryable (?net k)" and lt: "int k < this_retries this"
  proof -
    have le: "int (Suc k) \<le> this_retries this" using lt by simp
    have "\<exists>rest. fst (request_loop2 this ?net ?href params (Suc k) None) = Fetch ?href params # rest"
      using le by (subst request_loop2.simps) (auto simp: Let_def split: outcome.splits)
    then show ?thesis
      by (auto simp: request2_def Let_def split
          request_loop2_retry [where net = ?net and a = k, OF retryable_retried2 [OF r] lt])
  qed
qed

subsection \<open>Client errors\<close>

text \<open>
  The later \<open>request\<close> tests the status before it parses the body: a 4xx response ends
  the call at once, whatever its body.
\<close>

lemma request_loop2_client_error:
  assumes "int a \<le> this_retries this" and "net a = Resolved response"
    and "400 \<le> status response" and "status response < 500"
  shows "request_loop2 this net href params a le = ([Fetch href params], Inl (http_error response))"
proof -
  have "\<not> ok response" using assms(3) by (simp add: ok_def)
  moreover have "catch_block this (http_error response) = Throw (http_error response)"
    by (simp add: catch_block_def http_error_def Let_def split: sum.splits json.splits)
  ultimately show ?thesis
    using assms by (subst request_loop2.simps) (simp add: attempt2_def)
qed

lemma request2_client_error_single_attempt:
  assumes "0 \<le> this_retries this"
    and "net (this_baseUrl this @ endpoint) params 0 = Resolved response"
    and "400 \<le> status response" and "status response < 500"
  shows "request2 this net endpoint params
           = ([Fetch (this_baseUrl this @ endpoint) params], Inl (http_error response))"
  unfolding request2_def Let_def
  using assms by (intro request_loop2_client_error) simp_all

text \<open>
  The \<open>request\<close> of \<open>src/index.ts\<close> does the same where the body of the 4xx response
  parses to a value other than \<open>null\<close>.
\<close>

lemma request_client_error_single_attempt:
  assumes "0 \<le> this_retries this"
    and "net (this_baseUrl this @ endpoint) params 0 = Resolved response"
    and "400 \<le> status response" and "status response < 500"
    and "body response = Inr (JValue err code details rest)"
  shows "request this net endpoint params
           = ([Fetch (this_baseUrl this @ endpoint) params],
              Inl (ShotAPIException (or_string err ''Unknown error'') code details
                     (Some (status response))))"
  unfolding request_def Let_def
  using assms
  by (subst request_loop.simps) (simp add: try_block_def ok_def client_error_def)

text \<open>
  Claim C2. A 4xx response is never retried, whatever the shape of its body. The
  \<open>request\<close> of \<open>src/index.ts\<close> calls \<open>response.json()\<close> before it looks at
  \<open>response.ok\<close>: on a 404 whose body is not JSON the \<open>SyntaxError\<close> reaches
  \<open>catch\<close>, is no \<open>ShotAPIException\<close>, and the request is made three times, with waits
  of 1 s and 2 s. The later \<open>request\<close> makes it once.
\<close>

theorem request_retries_client_error_with_unparseable_body:
  "request example_client (always 404 ''Not Found'' (Inl ''Unexpected token < in JSON at position 0''))
     ''/api/v1/screenshot'' [(''url'', ''https://example.com''), (''api_key'', ''key'')]
     = ([Fetch ''https://shotapi.dev/api/v1/screenshot''
           [(''url'', ''https://example.com''), (''api_key'', ''key'')],
         Sleep 1000,
         Fetch ''https://shotapi.dev/api/v1/screenshot''
           [(''url'', ''https://example.com''), (''api_key'', ''key'')],
         Sleep 2000,
         Fetch ''https://shotapi.dev/api/v1/screenshot''
           [(''url'', ''https://example.com''), (''api_key'', ''key'')]],
        Inl (Error ''SyntaxError'' ''Unexpected token < in JSON at position 0''))
   \<and> request2 example_client
       (always 404 ''Not Found'' (Inl ''Unexpected token < in JSON at position 0''))
       ''/api/v1/screenshot'' [(''url'', ''https://example.com''), (''api_key'', ''key'')]
     = ([Fetch ''https://shotapi.dev/api/v1/screenshot''
           [(''url'', ''https://example.com''), (''api_key'', ''key'')]],
        Inl (ShotAPIException ''HTTP 404: Not Found'' (Some ''HTTP_ERROR'') None (Some 404)))"
  by code_simp

subsection \<open>Error bodies that are not JSON\<close>

text \<open>
  The later \<open>request\<close> builds the error of a response whose body does not parse from
  the status line, and throws nothing but a \<open>ShotAPIException\<close>.
\<close>

lemma http_error_generic:
  assumes "body response = Inl message"
  shows "http_error response =
           ShotAPIException (''HTTP '' @ int_toString (status response) @ '': '' @ statusText response)
             (Some ''HTTP_ERROR'') None (Some (status response))"
  using assms by (simp add: http_error_def)

lemma http_error_is_exception: "is_ShotAPIException (http_error response)"
  by (simp add: http_error_def is_ShotAPIException_def Let_def split: sum.splits json.splits)

lemma catch_block_exception:
  "catch_block this e = Throw x \<Longrightarrow> is_ShotAPIException x"
  "catch_block this e = Retry x \<Longrightarrow> is_ShotAPIException x"
  by (auto simp: catch_block_def is_ShotAPIException_def split: thrown.splits if_splits)

lemma attempt2_exception:
  "attempt2 this res = Throw x \<Longrightarrow> is_ShotAPIException x"
  "attempt2 this res = Retry x \<Longrightarrow> is_ShotAPIException x"
  by (auto simp: attempt2_def http_error_is_exception
      split: fetch_result.splits if_splits sum.splits dest: catch_block_exception)

lemma request_loop2_throws_exceptions:
  assumes "snd (request_loop2 this net href params a le) = Inl e"
    and "case le of None \<Rightarrow> True | Some x \<Rightarrow> is_ShotAPIException x"
  shows "is_ShotAPIException e"
  using assms
proof (induction this net href params a le rule: request_loop2.induct)
  case (1 this net href params attempt lastError)
  show ?case
  proof (cases "int attempt \<le> this_retries this")
    case False
    with "1.prems" show ?thesis
      by (subst (asm) request_loop2.simps)
        (auto simp: is_ShotAPIException_def split: option.splits if_splits)
  next
    case True
    show ?thesis
    proof (cases "attempt2 this (net attempt)")
      case (Return data)
      with True "1.prems"(1) show ?thesis by (subst (asm) request_loop2.simps) simp
    next
      case (Throw x)
      with True "1.prems"(1) have "e = x" by (subst (asm) request_loop2.simps) simp
      with Throw show ?thesis by (simp add: attempt2_exception(1))
    next
      case (Retry x)
      with True "1.prems"(1)
      have "snd (request_loop2 this net href params (attempt + 1) (Some x)) = Inl e"
        by (subst (asm) request_loop2.simps) (simp add: Let_def)
      moreover have "is_ShotAPIException x" using Retry by (rule attempt2_exception(2))
      ultimately show ?thesis using "1.IH" [OF True Retry refl] by simp
    qed
  qed
qed

lemma request2_throws_exceptions:
  "snd (request2 this net endpoint params) = Inl e \<Longrightarrow> is_ShotAPIException e"
  unfolding request2_def Let_def by (erule request_loop2_throws_exceptions) simp

text \<open>
  Claim C4. A non-2xx response whose body is not JSON yields a generic error made from the
  HTTP status, never the parse error. In \<open>src/index.ts\<close> the \<open>SyntaxError\<close> of
  \<open>response.json()\<close> becomes \<open>lastError\<close> and is what the call throws after its
  retries; the later \<open>request\<close> throws \<open>HTTP 502: Bad Gateway\<close> with code
  \<open>HTTP_ERROR\<close> on the same responses.
\<close>

theorem request_throws_JSON_parse_error:
  "snd (request example_client
          (always 502 ''Bad Gateway'' (Inl ''Unexpected token < in JSON at position 0''))
          ''/api/v1/screenshot'' [(''url'', ''https://example.com''), (''api_key'', ''key'')])
     = Inl (Error ''SyntaxError'' ''Unexpected token < in JSON at position 0'')
   \<and> snd (request2 example_client
          (always 502 ''Bad Gateway'' (Inl ''Unexpected token < in JSON at position 0''))
          ''/api/v1/screenshot'' [(''url'', ''https://example.com''), (''api_key'', ''key'')])
     = Inl (ShotAPIException ''HTTP 502: Bad Gateway'' (Some ''HTTP_ERROR'') None (Some 502))"
  by code_simp

section \<open>The constructor\<close>

lemma request_single_attempt:
  assumes "this_retries this = 0"
  shows "fst (request this net endpoint params) = [Fetch (this_baseUrl this @ endpoint) params]"
proof -
  let ?href = "this_baseUrl this @ endpoint"
  have after: "fst (request_loop this (net ?href params) ?href params (Suc 0) le) = []" for le
    using assms by (subst request_loop.simps) simp
  show ?thesis
    unfolding request_def Let_def using assms
    by (subst request_loop.simps) (simp add: Let_def after split: sum.splits)
qed

text \<open>
  Claim C9. The constructor defaults its fields in two ways. \<open>retries\<close> is defaulted by
  \<open>??\<close>: absent it is 2, and every given value is kept, 0 too, with which a request is
  attempted exactly once. \<open>timeout\<close> and \<open>baseUrl\<close> are defaulted by \<open>||\<close>: absent
  they are 30000 and \<open>https://shotapi.dev\<close>, a given value is kept unless it is falsy,
  and \<open>timeout: 0\<close> and \<open>baseUrl: ''\<close> give way to these defaults.
\<close>

theorem new_ShotAPI_defaults:
  assumes "apiKey config \<noteq> []"
  shows "\<exists>this. new_ShotAPI config = Inr this
           \<and> this_apiKey this = apiKey config
           \<and> this_retries this = (case retries config of None \<Rightarrow> 2 | Some r \<Rightarrow> r)
           \<and> this_timeout this
               = (case timeout config of None \<Rightarrow> 30000 | Some t \<Rightarrow> if t = 0 then 30000 else t)
           \<and> this_baseUrl this
               = (case baseUrl config of
                    None \<Rightarrow> ''https://shotapi.dev''
                  | Some b \<Rightarrow> if b = [] then ''https://shotapi.dev'' else b)
           \<and> (retries config = Some 0 \<longrightarrow>
                (\<forall>net endpoint params.
                   fst (request this net endpoint params)
                     = [Fetch (this_baseUrl this @ endpoint) params]))"
proof -
  let ?client = "\<lparr>this_apiKey = apiKey config,
                this_baseUrl = or_string (baseUrl config) ''https://shotapi.dev'',
                this_timeout = or_int (timeout config) 30000,
                this_retries = nullish (retries config) 2\<rparr>"
  have made: "new_ShotAPI config = Inr ?client" using assms by (simp add: new_ShotAPI_def)
  have once: "fst (request ?client net endpoint params)
      = [Fetch (this_baseUrl ?client @ endpoint) params]"
    if "retries config = Some 0" for net endpoint params
    by (rule request_single_attempt) (simp add: that nullish_def)
  have fields: "this_retries ?client = (case retries config of None \<Rightarrow> 2 | Some r \<Rightarrow> r)"
    "this_timeout ?client
       = (case timeout config of None \<Rightarrow> 30000 | Some t \<Rightarrow> if t = 0 then 30000 else t)"
    "this_baseUrl ?client
       = (case baseUrl config of
            None \<Rightarrow> ''https://shotapi.dev''
          | Some b \<Rightarrow> if b = [] then ''https://shotapi.dev'' else b)"
    by (simp_all add: nullish_def or_int_def or_string_def split: option.splits)
  show ?thesis
    unfolding made using once fields by (intro exI [of _ ?client]) simp
qed

theorem new_ShotAPI_defaults_witness:
  "(\<exists>this. new_ShotAPI \<lparr>apiKey = ''key'', baseUrl = Some [], timeout = Some 0, retries = Some 0,
                          maxConcurrent = None\<rparr> = Inr this
      \<and> this_retries this = 0 \<and> this_timeout this = 30000
      \<and> this_baseUrl this = ''https://shotapi.dev''
      \<and> (\<forall>net endpoint params.
            fst (request this net endpoint params) = [Fetch (''https://shotapi.dev'' @ endpoint) params]))
   \<and> (\<exists>this. new_ShotAPI \<lparr>apiKey = ''key'', baseUrl = Some ''http://localhost:3000'',
                            timeout = Some 5000, retries = Some 5, maxConcurrent = None\<rparr> = Inr this
      \<and> this_retries this = 5 \<and> this_timeout this = 5000
      \<and> this_baseUrl this = ''http://localhost:3000'')
   \<and> (\<exists>this. new_ShotAPI \<lparr>apiKey = ''key'', baseUrl = None, timeout = None, retries = None,
                            maxConcurrent = None\<rparr> = Inr this
      \<and> this_retries this = 2 \<and> this_timeout this = 30000
      \<and> this_baseUrl this = ''https://shotapi.dev'')"
  using new_ShotAPI_defaults [of "\<lparr>apiKey = ''key'', baseUrl = Some [], timeout = Some 0,
      retries = Some 0, maxConcurrent = None\<rparr>"]
    new_ShotAPI_defaults [of "\<lparr>apiKey = ''key'', baseUrl = Some ''http://localhost:3000'',
      timeout = Some 5000, retries = Some 5, maxConcurrent = None\<rparr>"]
    new_ShotAPI_defaults [of "\<lparr>apiKey = ''key'', baseUrl = None, timeout = None,
      retries = None, maxConcurrent = None\<rparr>"]
  by auto

text \<open>The later constructor defaults the three fields in the same way.\<close>

lemma new_ShotAPI2_defaults:
  assumes "apiKey config \<noteq> []"
  shows "\<exists>this. new_ShotAPI2 config = Inr this
           \<and> this_retries this = (case retries config of None \<Rightarrow> 2 | Some r \<Rightarrow> r)
           \<and> this_timeout this
               = (case timeout config of None \<Rightarrow> 30000 | Some t \<Rightarrow> if t = 0 then 30000 else t)
           \<and> this_baseUrl this
               = (case baseUrl config of
                    None \<Rightarrow> ''https://shotapi.dev''
                  | Some b \<Rightarrow> if b = [] then ''https://shotapi.dev'' else b)"
  using assms
  by (simp add: new_ShotAPI2_def nullish_def or_int_def or_string_def split: option.splits)

section \<open>screenshot\<close>

text \<open>The later \<open>screenshot\<close> validates \<open>quality\<close> and the URL before any request.\<close>

lemma screenshot2_quality:
  assumes "url options \<noteq> []" and "isValidUrl new_URL (url options)"
    and "quality options = Some q"
  shows "q < 1 \<or> q > 100 \<Longrightarrow>
           screenshot2 new_URL this net options
             = ([], Inl (ShotAPIException ''Quality must be between 1 and 100''
                           (Some ''INVALID_QUALITY'') None None))"
    and "1 \<le> q \<and> q \<le> 100 \<Longrightarrow> delay options = None \<Longrightarrow>
           screenshot2 new_URL this net options
             = (case buildParams2 this options of
                  Inl e \<Rightarrow> ([], Inl e)
                | Inr params \<Rightarrow> request2 this net ''/api/v1/screenshot'' params)"
  using assms by (auto simp: screenshot2_def)

lemma screenshot2_invalid_url:
  assumes "url options \<noteq> []" and "\<not> isValidUrl new_URL (url options)"
  shows "screenshot2 new_URL this net options
           = ([], Inl (ShotAPIException
                         (''Invalid URL: '' @ url options
                            @ ''. URL must start with http:// or https://'')
                         (Some ''INVALID_URL'') None None))"
  using assms by (simp add: screenshot2_def)

text \<open>
  Claim C5. A \<open>quality\<close> outside 1..100 is refused with \<open>INVALID_QUALITY\<close> before any
  network access. The \<open>screenshot\<close> of \<open>src/index.ts\<close> checks nothing but the presence
  of the URL: with \<open>quality: 101\<close> it sends the request, \<open>quality=101\<close> among its
  parameters, and returns what the server answers. The later \<open>screenshot\<close> refuses the
  same options without a request.
\<close>

theorem screenshot_sends_quality_out_of_range:
  "screenshot example_client (always 200 ''OK'' (Inr (JValue None None None ''shot.png'')))
     ((only_url ''https://example.com'')\<lparr>quality := Some 101\<rparr>)
     = ([Fetch ''https://shotapi.dev/api/v1/screenshot''
           [(''url'', ''https://example.com''), (''api_key'', ''key''), (''quality'', ''101'')]],
        Inr (JValue None None None ''shot.png''))
   \<and> screenshot2 (\<lambda>u. Some ''https:'') example_client
       (always 200 ''OK'' (Inr (JValue None None None ''shot.png'')))
       ((only_url ''https://example.com'')\<lparr>quality := Some 101\<rparr>)
     = ([], Inl (ShotAPIException ''Quality must be between 1 and 100'' (Some ''INVALID_QUALITY'')
                   None None))"
  by code_simp

text \<open>
  Claim C6. A URL that is no absolute \<open>http\<close> or \<open>https\<close> URL is refused with
  \<open>INVALID_URL\<close> before any network access. The \<open>screenshot\<close> of \<open>src/index.ts\<close>
  sends the request for \<open>ftp://x\<close>. The later \<open>screenshot\<close>, for which
  \<open>new URL('ftp://x').protocol\<close> is \<open>ftp:\<close>, refuses it without a request.
\<close>

theorem screenshot_sends_unsupported_scheme:
  "screenshot example_client (always 200 ''OK'' (Inr (JValue None None None ''shot.png'')))
     (only_url ''ftp://x'')
     = ([Fetch ''https://shotapi.dev/api/v1/screenshot''
           [(''url'', ''ftp://x''), (''api_key'', ''key'')]],
        Inr (JValue None None None ''shot.png''))
   \<and> screenshot2 (\<lambda>u. Some ''ftp:'') example_client
       (always 200 ''OK'' (Inr (JValue None None None ''shot.png''))) (only_url ''ftp://x'')
     = ([], Inl (ShotAPIException ''Invalid URL: ftp://x. URL must start with http:// or https://''
                   (Some ''INVALID_URL'') None None))"
  by code_simp

section \<open>batch\<close>

lemma calls_nth:
  "calls shot nets options a us =
     map (\<lambda>j. snd (shot (nets (a + j)) (options\<lparr>url := us ! j\<rparr>))) [0..<length us]"
proof (induction us arbitrary: a)
  case Nil
  show ?case by simp
next
  case (Cons u us)
  have "map (\<lambda>j. snd (shot (nets (a + j)) (options\<lparr>url := (u # us) ! j\<rparr>))) [0..<length (u # us)]
      = snd (shot (nets a) (options\<lparr>url := u\<rparr>))
        # map (\<lambda>j. snd (shot (nets (Suc a + j)) (options\<lparr>url := us ! j\<rparr>))) [0..<length us]"
    by (simp add: upt_conv_Cons map_Suc_upt [symmetric] del: upt_Suc)
  then show ?case by (simp add: Cons.IH)
qed

lemma rejections_none: "\<forall>p\<in>set ps. isl p = False \<Longrightarrow> rejections order i ps = []"
  by (induction order i ps rule: rejections.induct) simp_all

lemma fulfilled_all: "\<forall>p\<in>set ps. isl p = False \<Longrightarrow> fulfilled ps = map projr ps"
  by (induction ps rule: fulfilled.induct) simp_all

lemma Promise_all_fulfilled:
  assumes "\<forall>j<n. f j = Inr (g j)"
  shows "Promise_all order (map f [0..<n]) = Inr (map g [0..<n])"
proof -
  have none: "\<forall>p\<in>set (map f [0..<n]). isl p = False" using assms by auto
  have "map projr (map f [0..<n]) = map g [0..<n]" using assms by simp
  then show ?thesis
    by (simp add: Promise_all_def rejections_none [OF none] fulfilled_all [OF none])
qed

text \<open>Every fetch of a \<open>screenshot\<close> call carries the URL of its options.\<close>

lemma preset_params_other:
  assumes "preset_params name ps = Inr ps'"
    and "k \<noteq> ''width''" and "k \<noteq> ''height''" and "k \<noteq> ''mobile''" and "k \<noteq> ''scale''"
  shows "params_get ps' k = params_get ps k"
  using assms
  by (auto simp: preset_params_def Let_def params_get_set split: property.splits if_splits)

lemma viewport_params_other:
  assumes "viewport_params options ps = Inr ps'"
    and "k \<noteq> ''width''" and "k \<noteq> ''height''" and "k \<noteq> ''mobile''" and "k \<noteq> ''scale''"
  shows "params_get ps' k = params_get ps k"
  using assms
  by (auto simp: viewport_params_def explicit_params_def Let_def params_get_simps
      split: option.splits if_splits dest: preset_params_other)

lemma buildParams_url:
  assumes "buildParams this options = Inr params"
  shows "params_get params ''url'' = Some (url options)"
proof -
  let ?start = "params_set ''api_key'' (this_apiKey this) (params_set ''url'' (url options) [])"
  from assms obtain ps where ps: "viewport_params options ?start = Inr ps"
    by (auto simp: buildParams_def Let_def split: sum.splits)
  have "params_get ps ''url'' = params_get ?start ''url''"
    by (rule viewport_params_other [OF ps]) simp_all
  then have "params_get ps ''url'' = Some (url options)" by (simp add: params_get_def)
  with assms ps show ?thesis
    by (auto simp: buildParams_def Let_def params_get_simps)
qed

lemma request_loop_fetches:
  "Fetch h p \<in> set (fst (request_loop this net href params a le)) \<Longrightarrow> h = href \<and> p = params"
proof (induction this net href params a le rule: request_loop.induct)
  case (1 this net href params attempt lastError)
  show ?case
  proof (cases "int attempt \<le> this_retries this")
    case False
    with "1.prems" show ?thesis by (subst (asm) request_loop.simps) simp
  next
    case True
    show ?thesis
    proof (cases "try_block (net attempt)")
      case (Inr data)
      with True "1.prems" show ?thesis by (subst (asm) request_loop.simps) simp
    next
      case (Inl error)
      show ?thesis
      proof (cases "client_error error")
        case True
        with \<open>int attempt \<le> this_retries this\<close> Inl "1.prems" show ?thesis
          by (subst (asm) request_loop.simps) simp
      next
        case False
        with True Inl "1.prems"
        have "Fetch h p = Fetch href params
            \<or> Fetch h p \<in> set (fst (request_loop this net href params (attempt + 1) (Some error)))"
          by (subst (asm) request_loop.simps) (auto simp: Let_def split: if_splits)
        then show ?thesis
          using "1.IH" [OF True Inl False refl] by auto
      qed
    qed
  qed
qed

lemma screenshot_fetches_url:
  assumes "Fetch h p \<in> set (fst (screenshot this net options))"
  shows "params_get p ''url'' = Some (url options)"
proof -
  from assms obtain params where built: "buildParams this options = Inr params"
    and "Fetch h p \<in> set (fst (request this net ''/api/v1/screenshot'' params))"
    by (auto simp: screenshot_def split: if_splits sum.splits)
  then have "p = params"
    by (auto simp: request_def Let_def dest: request_loop_fetches)
  with built show ?thesis by (simp add: buildParams_url)
qed

text \<open>
  Claim C8. When every request of a batch succeeds, \<open>batch\<close> returns as many responses
  as there are URLs, and the response at index \<open>i\<close> is the one of the call for the URL at
  index \<open>i\<close>, every fetch of which carried that URL, whatever the order in which the
  calls settle.
\<close>

theorem batch_results_in_input_order:
  assumes "\<forall>i<length urls. \<exists>r. snd (screenshot this (nets i) (options\<lparr>url := urls ! i\<rparr>)) = Inr r"
  shows "\<exists>rs. snd (batch this nets order urls options) = Inr rs
           \<and> length rs = length urls
           \<and> (\<forall>i<length urls.
                 snd (screenshot this (nets i) (options\<lparr>url := urls ! i\<rparr>)) = Inr (rs ! i)
                 \<and> (\<forall>h p. Fetch h p \<in> set (fst (screenshot this (nets i) (options\<lparr>url := urls ! i\<rparr>)))
                       \<longrightarrow> params_get p ''url'' = Some (urls ! i)))"
proof -
  let ?call = "\<lambda>i. snd (screenshot this (nets i) (options\<lparr>url := urls ! i\<rparr>))"
  have each: "\<forall>i<length urls. ?call i = Inr (projr (?call i))" using assms by auto
  have "snd (batch this nets order urls options)
          = Inr (map (\<lambda>i. projr (?call i)) [0..<length urls])"
    using Promise_all_fulfilled [of "length urls" ?call "\<lambda>i. projr (?call i)" order, OF each]
    by (simp add: batch_def calls_nth)
  moreover have "params_get p ''url'' = Some (urls ! i)"
    if "Fetch h p \<in> set (fst (screenshot this (nets i) (options\<lparr>url := urls ! i\<rparr>)))" for i h p
    using screenshot_fetches_url [OF that] by simp
  ultimately show ?thesis using each by auto
qed

theorem batch_results_in_input_order_witness:
  "snd (batch example_client (\<lambda>i. echo) (\<lambda>i. 1 - i)
          [''https://a.example'', ''https://b.example''] (only_url []))
     = Inr [JValue None None None ''https://a.example'', JValue None None None ''https://b.example'']"
proof -
  let ?nets = "\<lambda>i::nat. echo"
  let ?urls = "[''https://a.example'', ''https://b.example'']"
  have first: "snd (screenshot example_client (?nets 0) ((only_url [])\<lparr>url := ?urls ! 0\<rparr>))
      = Inr (JValue None None None ''https://a.example'')"
    by code_simp
  have second: "snd (screenshot example_client (?nets 1) ((only_url [])\<lparr>url := ?urls ! 1\<rparr>))
      = Inr (JValue None None None ''https://b.example'')"
    by code_simp
  have all: "\<forall>i<length ?urls.
      \<exists>r. snd (screenshot example_client (?nets i) ((only_url [])\<lparr>url := ?urls ! i\<rparr>)) = Inr r"
    using first second by (auto simp: less_Suc_eq)
  from batch_results_in_input_order [OF all, of "\<lambda>i. 1 - i"] obtain rs
    where rs: "snd (batch example_client ?nets (\<lambda>i. 1 - i) ?urls (only_url [])) = Inr rs"
      "length rs = length ?urls"
      "\<forall>i<length ?urls.
         snd (screenshot example_client (?nets i) ((only_url [])\<lparr>url := ?urls ! i\<rparr>)) = Inr (rs ! i)"
    by blast
  from rs(3) first have "rs ! 0 = JValue None None None ''https://a.example''" by auto
  moreover from rs(3) second have "rs ! 1 = JValue None None None ''https://b.example''" by auto
  ultimately have "rs = [JValue None None None ''https://a.example'',
      JValue None None None ''https://b.example'']"
    using rs(2) by (cases rs; cases "tl rs") auto
  with rs(1) show ?thesis by simp
qed

subsection \<open>Chunks\<close>

lemma chunks_Nil: "chunks c [] = []"
  by (subst chunks.simps) simp

lemma chunks_concat: "0 < c \<Longrightarrow> concat (chunks c xs) = xs"
proof (induction c xs rule: chunks.induct)
  case (1 c xs)
  then show ?case by (subst chunks.simps) auto
qed

lemma chunks_sizes: "ch \<in> set (chunks c xs) \<Longrightarrow> ch \<noteq> [] \<and> length ch \<le> c"
proof (induction c xs rule: chunks.induct)
  case (1 c xs)
  show ?case
  proof (cases "c = 0 \<or> xs = []")
    case True
    with "1.prems" show ?thesis by (subst (asm) chunks.simps) simp
  next
    case False
    with "1.prems" have "ch = take c xs \<or> ch \<in> set (chunks c (drop c xs))"
      by (subst (asm) chunks.simps) simp
    then show ?thesis
    proof
      assume "ch = take c xs"
      with False show ?thesis by simp
    next
      assume "ch \<in> set (chunks c (drop c xs))"
      with False "1.IH" show ?thesis by blast
    qed
  qed
qed

lemma paced_Cons:
  "paced (c # cs) = map Screenshot c @ [AwaitAll] @ (if cs = [] then [] else Sleep 100 # paced cs)"
  by (cases cs) simp_all

lemma slice_take_drop:
  assumes "p \<le> length xs" and "0 \<le> c"
  shows "slice xs (int p) (int p + c) = take (nat c) (drop p xs)"
    and "slice_index xs (int p) = p"
proof -
  show start: "slice_index xs (int p) = p" using assms by (simp add: slice_index_def)
  have stop: "slice_index xs (int p + c) = min (p + nat c) (length xs)"
    using assms by (simp add: slice_index_def nat_add_distrib)
  have "take (min (p + nat c) (length xs) - p) (drop p xs) = take (nat c) (drop p xs)"
    by (cases "p + nat c \<le> length xs") (simp_all add: min_def)
  then show "slice xs (int p) (int p + c) = take (nat c) (drop p xs)"
    by (simp add: slice_def start stop)
qed

lemma slice_empty: "slice xs i i = []"
  by (simp add: slice_def)

lemma batch_loop2_done:
  "int (length urls) \<le> i \<Longrightarrow>
     batch_loop2 new_URL this nets order urls options i results trace = Some (trace, Inr results)"
  by (subst batch_loop2.simps) simp

lemma batch_loop2_step:
  assumes c: "1 \<le> this_maxConcurrent this"
    and all: "\<forall>i<length urls.
                snd (screenshot2 new_URL this (nets i) (options\<lparr>url := urls ! i\<rparr>)) = Inr (responses i)"
    and p: "p < length urls"
  shows "batch_loop2 new_URL this nets order urls options (int p) results trace =
           batch_loop2 new_URL this nets order urls options
             (int (p + nat (this_maxConcurrent this)))
             (results @ map responses [p..<min (p + nat (this_maxConcurrent this)) (length urls)])
             (trace @ map Screenshot (take (nat (this_maxConcurrent this)) (drop p urls)) @ [AwaitAll]
                @ (if p + nat (this_maxConcurrent this) < length urls then [Sleep 100] else []))"
proof -
  let ?c = "nat (this_maxConcurrent this)"
  let ?chunk = "take ?c (drop p urls)"
  have len: "length ?chunk = min (p + ?c) (length urls) - p" using p by auto
  have next_i: "int p + this_maxConcurrent this = int (p + ?c)" using c by simp
  have sl: "slice urls (int p) (int (p + ?c)) = ?chunk" "slice_index urls (int p) = p"
    using slice_take_drop [of p urls "this_maxConcurrent this"] p c
    by (simp_all add: next_i del: of_nat_add)
  have each: "\<forall>j<length ?chunk.
      snd (screenshot2 new_URL this (nets (p + (0 + j))) (options\<lparr>url := ?chunk ! j\<rparr>))
        = Inr (responses (p + j))"
    using all p by auto
  have "map (\<lambda>j. responses (p + j)) [0..<length ?chunk] = map responses (map (\<lambda>j. j + p) [0..<length ?chunk])"
    by (simp add: add.commute)
  also have "\<dots> = map responses [p..<min (p + ?c) (length urls)]"
    using p by (simp only: map_add_upt len) (simp add: min_def)
  finally have res: "map (\<lambda>j. responses (p + j)) [0..<length ?chunk]
      = map responses [p..<min (p + ?c) (length urls)]" .
  have all_ok: "Promise_all (\<lambda>k. order (p + k))
           (calls (screenshot2 new_URL this) (\<lambda>k. nets (p + k)) options 0 ?chunk)
         = Inr (map responses [p..<min (p + ?c) (length urls)])"
    unfolding calls_nth res [symmetric]
    by (rule Promise_all_fulfilled) (rule each)
  have more: "(int (p + ?c) < int (length urls)) = (p + ?c < length urls)"
    by (rule of_nat_less_iff)
  show ?thesis
    using p
    by (subst batch_loop2.simps)
      (simp add: sl all_ok Let_def next_i more del: of_nat_add of_nat_less_iff)
qed

lemma batch_loop2_chunks:
  assumes c: "1 \<le> this_maxConcurrent this"
    and all: "\<forall>i<length urls.
                snd (screenshot2 new_URL this (nets i) (options\<lparr>url := urls ! i\<rparr>)) = Inr (responses i)"
  shows "batch_loop2 new_URL this nets order urls options (int p) results trace =
           Some (trace @ paced (chunks (nat (this_maxConcurrent this)) (drop p urls)),
                 Inr (results @ map responses [p..<length urls]))"
proof (induction "length urls - p" arbitrary: p results trace rule: less_induct)
  case less
  let ?c = "nat (this_maxConcurrent this)"
  have cpos: "0 < ?c" using c by simp
  show ?case
  proof (cases "p < length urls")
    case False
    then have "chunks ?c (drop p urls) = []" by (subst chunks.simps) simp
    with False show ?thesis by (simp add: batch_loop2_done)
  next
    case True
    have smaller: "length urls - (p + ?c) < length urls - p" using True cpos by simp
    have unfold: "chunks ?c (drop p urls) = take ?c (drop p urls) # chunks ?c (drop (p + ?c) urls)"
      using True cpos by (subst chunks.simps) (simp add: add.commute)
    have empty: "(chunks ?c (drop (p + ?c) urls) = []) = (\<not> p + ?c < length urls)"
      using cpos by (subst chunks.simps) simp
    have join: "map responses [p..<min (p + ?c) (length urls)] @ map responses [p + ?c..<length urls]
        = map responses [p..<length urls]"
    proof (cases "p + ?c < length urls")
      case True
      have "[p..<(p + ?c) + (length urls - (p + ?c))]
              = [p..<p + ?c] @ [p + ?c..<(p + ?c) + (length urls - (p + ?c))]"
        by (rule upt_add_eq_append) simp
      with True have "[p..<length urls] = [p..<p + ?c] @ [p + ?c..<length urls]" by simp
      with True show ?thesis by (simp add: min_def)
    next
      case False
      then show ?thesis by (simp add: min_def)
    qed
    show ?thesis
      unfolding batch_loop2_step [OF c all True] less.hyps [OF smaller] unfold paced_Cons empty
      using join by (simp add: chunks_Nil)
  qed
qed

text \<open>
  With a ceiling of at least 1 and every request succeeding, the later \<open>batch\<close> runs the
  URLs in consecutive chunks of at most \<open>maxConcurrent\<close>, awaits each chunk before the
  next, waits 100 ms between two chunks and not after the last, and returns the responses
  in the order of the URLs.
\<close>

lemma batch2_chunks:
  assumes "1 \<le> this_maxConcurrent this"
    and "\<forall>i<length urls.
           snd (screenshot2 new_URL this (nets i) (options\<lparr>url := urls ! i\<rparr>)) = Inr (responses i)"
  shows "batch2 new_URL this nets order urls options =
           Some (paced (chunks (nat (this_maxConcurrent this)) urls),
                 Inr (map responses [0..<length urls]))"
  using batch_loop2_chunks [OF assms, of order 0 "[]" "[]"] by (simp add: batch2_def)

lemma batch2_results_in_input_order:
  assumes "1 \<le> this_maxConcurrent this"
    and "\<forall>i<length urls.
           \<exists>r. snd (screenshot2 new_URL this (nets i) (options\<lparr>url := urls ! i\<rparr>)) = Inr r"
  shows "\<exists>trace rs. batch2 new_URL this nets order urls options = Some (trace, Inr rs)
           \<and> length rs = length urls
           \<and> (\<forall>i<length urls.
                 snd (screenshot2 new_URL this (nets i) (options\<lparr>url := urls ! i\<rparr>)) = Inr (rs ! i))"
proof -
  let ?call = "\<lambda>i. snd (screenshot2 new_URL this (nets i) (options\<lparr>url := urls ! i\<rparr>))"
  have each: "\<forall>i<length urls. ?call i = Inr (projr (?call i))" using assms(2) by auto
  show ?thesis
    unfolding batch2_chunks [OF assms(1) each] using each by simp
qed

text \<open>With a ceiling of 0 the loop of the later \<open>batch\<close> makes no progress.\<close>

lemma batch_loop2_stuck:
  assumes "batch_loop2 new_URL this nets order urls options i results trace = Some r"
  shows "\<not> (this_maxConcurrent this = 0 \<and> i < int (length urls))"
  using assms
proof (induction rule: batch_loop2.raw_induct [rotated 1, consumes 1])
  case (1 batch_loop2 new_URL this nets order urls options i results trace r)
  show ?case
  proof
    assume stuck: "this_maxConcurrent this = 0 \<and> i < int (length urls)"
    with "1.hyps" obtain results' trace'
      where "batch_loop2 new_URL this nets order urls options i results' trace' = Some r"
      by (simp add: slice_empty Promise_all_def Let_def)
    from "1.IH" [OF this] stuck show False by simp
  qed
qed

lemma batch2_never_returns:
  assumes "this_maxConcurrent this = 0" and "urls \<noteq> []"
  shows "batch2 new_URL this nets order urls options = None"
proof (cases "batch2 new_URL this nets order urls options")
  case None
  then show ?thesis .
next
  case (Some r)
  then show ?thesis
    using assms batch_loop2_stuck [of new_URL this nets order urls options 0 "[]" "[]" r]
    by (simp add: batch2_def)
qed

text \<open>
  Claim C3. \<open>batch\<close> runs the URLs in consecutive chunks of at most \<open>maxConcurrent\<close>,
  one chunk after the other, with 100 ms between two chunks. The constructor of
  \<open>src/index.ts\<close> drops \<open>maxConcurrent\<close> and its \<open>batch\<close> starts every call at once
  and awaits them together: six URLs under \<open>maxConcurrent: 2\<close> make one group of six,
  with no wait, where the later \<open>batch\<close> makes three chunks of two.
\<close>

theorem batch_starts_every_call_at_once:
  "new_ShotAPI \<lparr>apiKey = ''key'', baseUrl = None, timeout = None, retries = None,
                 maxConcurrent = Some 2\<rparr> = Inr example_client
   \<and> fst (batch example_client (\<lambda>i. always 200 ''OK'' (Inr (JValue None None None ''shot.png'')))
            (\<lambda>i. i)
            [''https://a.example'', ''https://b.example'', ''https://c.example'',
             ''https://d.example'', ''https://e.example'', ''https://f.example'']
            (only_url []))
     = [Screenshot ''https://a.example'', Screenshot ''https://b.example'',
        Screenshot ''https://c.example'', Screenshot ''https://d.example'',
        Screenshot ''https://e.example'', Screenshot ''https://f.example'', AwaitAll]
   \<and> map_option fst
       (batch2 (\<lambda>u. Some ''https:'')
          \<lparr>this_apiKey = ''key'', this_baseUrl = ''https://shotapi.dev'', this_timeout = 30000,
           this_retries = 2, this_maxConcurrent = 2\<rparr>
          (\<lambda>i. always 200 ''OK'' (Inr (JValue None None None ''shot.png''))) (\<lambda>i. i)
          [''https://a.example'', ''https://b.example'', ''https://c.example'',
           ''https://d.example'', ''https://e.example'', ''https://f.example'']
          (only_url []))
     = Some [Screenshot ''https://a.example'', Screenshot ''https://b.example'', AwaitAll,
             Sleep 100,
             Screenshot ''https://c.example'', Screenshot ''https://d.example'', AwaitAll,
             Sleep 100,
             Screenshot ''https://e.example'', Screenshot ''https://f.example'', AwaitAll]"
  by code_simp

end
